theory Spec2Isabelle
  imports Complex_Main
begin

section \<open>Shared data model\<close>

text \<open>
  The two step-definition modules (\<^verbatim>\<open>create-simple-topic.ts\<close> and the token steps of
  \<^verbatim>\<open>part_000\<close>) drive a ledger through an SDK. The SDK and the ledger are collaborators
  outside the repository, so every SDK call is a field of the record \<open>sdk\<close>: a function
  giving what the call returns or throws. JavaScript numbers are modelled as \<open>real\<close>
  (only their order, equality and sums of integers are used), \<^verbatim>\<open>Date.now()\<close> as an
  \<open>int\<close> of milliseconds, identifiers (\<^verbatim>\<open>AccountId\<close>, \<^verbatim>\<open>TopicId\<close>, \<^verbatim>\<open>TokenId\<close>) and
  private keys by their string form; \<open>None\<close> stands for \<^verbatim>\<open>undefined\<close> and \<^verbatim>\<open>null\<close>.
\<close>

text \<open>Thrown values: a plain \<^verbatim>\<open>Error\<close> with its message, a \<^verbatim>\<open>TypeError\<close> (a property read
  on \<^verbatim>\<open>undefined\<close> or \<^verbatim>\<open>null\<close>), the SDK's \<^verbatim>\<open>ReceiptStatusError\<close> with its
  \<^verbatim>\<open>status._code\<close>, and the failures of \<^verbatim>\<open>node:assert\<close>: \<^verbatim>\<open>assert.fail\<close> of either
  resolver with the number its message quotes, \<^verbatim>\<open>assert.strictEqual(actual, expected)\<close>
  and \<^verbatim>\<open>assert.ok\<close> with its message.\<close>

datatype assertion =
    NoConfiguredAccount real
  | NoAccountInConfig real
  | StrictEqual "int option" int
  | AssertOk string

datatype error =
    Error string
  | TypeError
  | ReceiptStatusError int
  | AssertionError assertion

text \<open>\<^verbatim>\<open>Account\<close> of \<^verbatim>\<open>src/config\<close>: \<^verbatim>\<open>{ id, privateKey }\<close>.\<close>

record Account =
  id' :: string
  privateKey :: string

text \<open>The SDK's \<^verbatim>\<open>Key\<close>: a private key, a public key, or a \<^verbatim>\<open>KeyList\<close> with its threshold.\<close>

datatype key =
    PrivateKey string
  | PublicKey string
  | KeyList "key list" real

text \<open>Transactions as the code builds them; \<open>frozen\<close> and \<open>signatures\<close> are what
  \<^verbatim>\<open>freezeWith\<close> and \<^verbatim>\<open>sign\<close> of the SDK are expected to fill in.\<close>

datatype transaction_body =
    AccountCreateTransaction key real
  | TopicCreateTransaction "key option" "key option" string
  | TopicDeleteTransaction "string option"
  | TopicMessageSubmitTransaction string string
  | TokenMintTransaction "string option" real

record transaction =
  body :: transaction_body
  frozen :: bool
  signatures :: "string list"

definition new_transaction :: "transaction_body \<Rightarrow> transaction" where
  "new_transaction b = \<lparr>body = b, frozen = False, signatures = []\<rparr>"

text \<open>A \<^verbatim>\<open>TransactionReceipt\<close>: the status and the identifier of what was created.\<close>

record receipt =
  status :: string
  accountId :: "string option"
  topicId :: "string option"

text \<open>The answer of an \<^verbatim>\<open>AccountBalanceQuery\<close>: \<^verbatim>\<open>hbars\<close> and the token map
  (\<^verbatim>\<open>null\<close> when there is none).\<close>

record AccountBalance =
  hbars :: real
  token_map :: "(string \<rightharpoonup> real) option"

text \<open>The SDK as the code consumes it. \<open>generateED25519\<close> is the private key that
  \<^verbatim>\<open>PrivateKey.generateED25519()\<close> returns, \<open>publicKey\<close> the public key of a private key,
  \<open>execute\<close> returns the \<^verbatim>\<open>TransactionResponse\<close> (its transaction id).\<close>

record sdk =
  accountIdFromString :: "string \<Rightarrow> error + string"
  privateKeyFromStringED25519 :: "string \<Rightarrow> error + string"
  generateED25519 :: string
  publicKey :: "string \<Rightarrow> string"
  accountBalanceQuery :: "string \<Rightarrow> error + AccountBalance"
  freezeWith :: "transaction \<Rightarrow> error + transaction"
  sign :: "string \<Rightarrow> transaction \<Rightarrow> error + transaction"
  execute :: "transaction \<Rightarrow> error + string"
  getReceipt :: "string \<Rightarrow> error + receipt"

text \<open>Lines written to the console.\<close>

datatype log_line =
    TransactionFailed error
  | TopicCreatedWithThresholdKey "string option"
  | ReceivedMessage string
  | MessageSubmitted string string
  | UnexpectedError error

section \<open>Module state\<close>

record BalanceCacheEntry =
  balance :: real
  timestamp :: int

record CreatedResources =
  topics :: "string option list"
  accounts :: "string option list"

text \<open>
  The module-level state of both files. Of \<^verbatim>\<open>create-simple-topic.ts\<close>: the operator of its
  \<^verbatim>\<open>client\<close>, the fields of \<^verbatim>\<open>context\<close> (named \<open>context_topicId\<close> where the receipt has
  the same field) and the \<^verbatim>\<open>balanceCache\<close> map. Of \<^verbatim>\<open>part_000\<close>: the operator of its own
  \<^verbatim>\<open>client\<close> and the variables \<^verbatim>\<open>firstAccount\<close>, \<^verbatim>\<open>secondAccount\<close>, \<^verbatim>\<open>tokenId\<close> and
  \<^verbatim>\<open>tokenSupply\<close>, prefixed \<open>token_\<close>. \<open>console\<close> is the process console.
  \<open>balanceQueries\<close> is ghost state: the account of every \<^verbatim>\<open>AccountBalanceQuery\<close> executed
  against the network, in order, so that "no live query" can be stated.
\<close>

record world =
  operator :: "(string \<times> string) option"
  context_topicId :: "string option"
  thresholdKey :: "key option"
  firstAccount :: "Account option"
  secondAccount :: "Account option"
  createdResources :: CreatedResources
  balanceCache :: "string \<rightharpoonup> BalanceCacheEntry"
  token_operator :: "(string \<times> string) option"
  token_firstAccount :: "Account option"
  token_secondAccount :: "Account option"
  token_tokenId :: "string option"
  token_tokenSupply :: real
  balanceQueries :: "string list"
  console :: "log_line list"

section \<open>Balance cache (\<^verbatim>\<open>create-simple-topic.ts\<close>, lines 78-97)\<close>

definition CACHE_TTL :: int where
  "CACHE_TTL = 5000"

text \<open>Lines 88-96: the live query of \<^verbatim>\<open>getHbarBalance\<close>. \<open>now'\<close> is \<^verbatim>\<open>Date.now()\<close> read
  when the answer is stored.\<close>

definition getHbarBalance_query ::
  "sdk \<Rightarrow> int \<Rightarrow> Account \<Rightarrow> world \<Rightarrow> (error + real) \<times> world" where
  "getHbarBalance_query s now' account w =
     (case accountIdFromString s (id' account) of
        Inl e \<Rightarrow> (Inl e, w)
      | Inr aid \<Rightarrow>
          (let w1 = w\<lparr>balanceQueries := balanceQueries w @ [aid]\<rparr> in
           case accountBalanceQuery s aid of
             Inl e \<Rightarrow> (Inl e, w1)
           | Inr balanceResult \<Rightarrow>
               (Inr (hbars balanceResult),
                w1\<lparr>balanceCache := (balanceCache w1)(id' account \<mapsto>
                      \<lparr>balance = hbars balanceResult, timestamp = now'\<rparr>)\<rparr>)))"

text \<open>Lines 83-86: the cache test. \<open>now\<close> is \<^verbatim>\<open>Date.now()\<close> read at the test; the
  result is the cached balance when an entry exists and is younger than the TTL.\<close>

definition cached_balance :: "int \<Rightarrow> world \<Rightarrow> Account \<Rightarrow> real option" where
  "cached_balance now w account =
     (case balanceCache w (id' account) of
        Some cached \<Rightarrow> if now - timestamp cached < CACHE_TTL then Some (balance cached) else None
      | None \<Rightarrow> None)"

text \<open>Lines 82-97.\<close>

definition getHbarBalance ::
  "sdk \<Rightarrow> int \<Rightarrow> int \<Rightarrow> Account \<Rightarrow> world \<Rightarrow> (error + real) \<times> world" where
  "getHbarBalance s now now' account w =
     (case cached_balance now w account of
        Some b \<Rightarrow> (Inr b, w)
      | None \<Rightarrow> getHbarBalance_query s now' account w)"

section \<open>Token-aware balance query (\<^verbatim>\<open>part_000\<close>, lines 36-58)\<close>

record Balance =
  hbar :: real
  tokens :: real

text \<open>Lines 44-58. \<open>token\<close> is the optional \<^verbatim>\<open>TokenId\<close>; \<^verbatim>\<open>?? 0\<close> gives 0 for a token the
  map does not hold. The account id goes to the query as the string it is.\<close>

definition getAccountBalance ::
  "sdk \<Rightarrow> Account \<Rightarrow> string option \<Rightarrow> world \<Rightarrow> (error + Balance) \<times> world" where
  "getAccountBalance s account token w =
     (let w1 = w\<lparr>balanceQueries := balanceQueries w @ [id' account]\<rparr> in
      case accountBalanceQuery s (id' account) of
        Inl e \<Rightarrow> (Inl e, w1)
      | Inr result \<Rightarrow>
          (Inr \<lparr>hbar = hbars result,
                tokens = (case (token, token_map result) of
                            (Some t, Some tm) \<Rightarrow> (case tm t of Some n \<Rightarrow> n | None \<Rightarrow> 0)
                          | _ \<Rightarrow> 0)\<rparr>,
           w1))"

section \<open>Account pool resolvers\<close>

text \<open>
  \<^verbatim>\<open>Promise.all\<close> over settled results: it rejects with a rejection of its inputs (here the
  first in list order) and otherwise fulfils with all the values.
\<close>

fun Promise_all :: "(error + 'a) list \<Rightarrow> error + 'a list" where
  "Promise_all [] = Inr []"
| "Promise_all (Inl e # rs) = Inl e"
| "Promise_all (Inr v # rs) = (case Promise_all rs of Inl e \<Rightarrow> Inl e | Inr vs \<Rightarrow> Inr (v # vs))"

text \<open>
  \<^verbatim>\<open>create-simple-topic.ts\<close>, lines 225-230: \<^verbatim>\<open>accounts.map(async ...)\<close> starts every
  \<^verbatim>\<open>getHbarBalance\<close> call before any answer arrives, so every call tests the cache as it is
  when the step starts; the list pairs each account with the outcome of that test. Each
  call that missed then queries the network and stores its answer (\<open>now' account\<close> is
  \<^verbatim>\<open>Date.now()\<close> at that moment); the answers are taken in list order.
\<close>

fun getHbarBalance_all ::
  "sdk \<Rightarrow> (Account \<Rightarrow> int) \<Rightarrow> (Account \<times> real option) list \<Rightarrow> world
     \<Rightarrow> (error + real) list \<times> world" where
  "getHbarBalance_all s now' [] w = ([], w)"
| "getHbarBalance_all s now' ((account, Some b) # rest) w =
     (case getHbarBalance_all s now' rest w of (rs, w') \<Rightarrow> (Inr b # rs, w'))"
| "getHbarBalance_all s now' ((account, None) # rest) w =
     (case getHbarBalance_query s (now' account) account w of
        (r, w1) \<Rightarrow> (case getHbarBalance_all s now' rest w1 of (rs, w') \<Rightarrow> (r # rs, w')))"

text \<open>Lines 223-245: the step \<^verbatim>\<open>a first account with more than N hbars\<close> over the pool
  \<open>pool\<close> (\<^verbatim>\<open>accounts\<close> of the configuration).\<close>

definition first_account_step ::
  "sdk \<Rightarrow> int \<Rightarrow> (Account \<Rightarrow> int) \<Rightarrow> Account list \<Rightarrow> real \<Rightarrow> world \<Rightarrow> (error + unit) \<times> world" where
  "first_account_step s now now' pool minimumBalance w =
     (case getHbarBalance_all s now' (map (\<lambda>account. (account, cached_balance now w account)) pool) w of
        (rs, w1) \<Rightarrow>
          (case Promise_all rs of
             Inl e \<Rightarrow> (Inl e, w1)
           | Inr balances \<Rightarrow>
               (case find (\<lambda>(account, b). b > minimumBalance) (zip pool balances) of
                  Some (account, b) \<Rightarrow>
                    (case accountIdFromString s (id' account) of
                       Inl e \<Rightarrow> (Inl e, w1)
                     | Inr aid \<Rightarrow>
                         (case privateKeyFromStringED25519 s (privateKey account) of
                            Inl e \<Rightarrow> (Inl e, w1)
                          | Inr pk \<Rightarrow>
                              (Inr (), w1\<lparr>operator := Some (aid, pk),
                                          firstAccount := Some account\<rparr>)))
                | None \<Rightarrow> (Inl (AssertionError (NoConfiguredAccount minimumBalance)), w1))))"

text \<open>\<^verbatim>\<open>part_000\<close>, lines 192-208: the step \<^verbatim>\<open>A Hedera account with more than N hbar\<close>, a
  loop over the pool that returns at the first account that qualifies.\<close>

fun hedera_account_step ::
  "sdk \<Rightarrow> real \<Rightarrow> Account list \<Rightarrow> world \<Rightarrow> (error + unit) \<times> world" where
  "hedera_account_step s expectedBalance [] w =
     (Inl (AssertionError (NoAccountInConfig expectedBalance)), w)"
| "hedera_account_step s expectedBalance (acc # rest) w =
     (case accountIdFromString s (id' acc) of
        Inl e \<Rightarrow> (Inl e, w)
      | Inr accId \<Rightarrow>
          (case privateKeyFromStringED25519 s (privateKey acc) of
             Inl e \<Rightarrow> (Inl e, w)
           | Inr accPrivateKey \<Rightarrow>
               (case getAccountBalance s acc None w of
                  (Inl e, w1) \<Rightarrow> (Inl e, w1)
                | (Inr b, w1) \<Rightarrow>
                    if hbar b > expectedBalance
                    then (Inr (), w1\<lparr>token_operator := Some (accId, accPrivateKey),
                                     token_firstAccount := Some acc\<rparr>)
                    else hedera_account_step s expectedBalance rest w1)))"

section \<open>Creating accounts and topics\<close>

text \<open>\<^verbatim>\<open>create-simple-topic.ts\<close>, lines 47-57: \<^verbatim>\<open>executeTransaction\<close> logs a failure and
  throws it again.\<close>

definition executeTransaction ::
  "sdk \<Rightarrow> transaction \<Rightarrow> world \<Rightarrow> (error + receipt) \<times> world" where
  "executeTransaction s tx w =
     (case execute s tx of
        Inl e \<Rightarrow> (Inl e, w\<lparr>console := console w @ [TransactionFailed e]\<rparr>)
      | Inr response \<Rightarrow>
          (case getReceipt s response of
             Inl e \<Rightarrow> (Inl e, w\<lparr>console := console w @ [TransactionFailed e]\<rparr>)
           | Inr r \<Rightarrow> (Inr r, w)))"

text \<open>\<^verbatim>\<open>context.createdResources.accounts.push\<close> and \<^verbatim>\<open>...topics.push\<close>.\<close>

definition push_account :: "string option \<Rightarrow> world \<Rightarrow> world" where
  "push_account a w =
     w\<lparr>createdResources :=
         (createdResources w)\<lparr>accounts := accounts (createdResources w) @ [a]\<rparr>\<rparr>"

definition push_topic :: "string option \<Rightarrow> world \<Rightarrow> world" where
  "push_topic t w =
     w\<lparr>createdResources :=
         (createdResources w)\<lparr>topics := topics (createdResources w) @ [t]\<rparr>\<rparr>"

text \<open>Lines 60-76. The receipt's \<^verbatim>\<open>accountId!\<close> is pushed as it is; \<^verbatim>\<open>toString\<close> on a null
  id throws after the push.\<close>

definition createAccountWithHbar :: "sdk \<Rightarrow> real \<Rightarrow> world \<Rightarrow> (error + Account) \<times> world" where
  "createAccountWithHbar s hbarAmount w =
     (let pk = generateED25519 s in
      case executeTransaction s
             (new_transaction (AccountCreateTransaction (PublicKey (publicKey s pk)) hbarAmount)) w of
        (Inl e, w1) \<Rightarrow> (Inl e, w1)
      | (Inr r, w1) \<Rightarrow>
          (let w2 = push_account (accountId r) w1 in
           case accountId r of
             None \<Rightarrow> (Inl TypeError, w2)
           | Some a \<Rightarrow> (Inr \<lparr>id' = a, privateKey = pk\<rparr>, w2)))"

text \<open>\<^verbatim>\<open>client.operatorPublicKey\<close>.\<close>

definition operatorPublicKey :: "sdk \<Rightarrow> world \<Rightarrow> key option" where
  "operatorPublicKey s w = map_option (\<lambda>(a, k). PublicKey (publicKey s k)) (operator w)"

text \<open>Lines 100-121. The transaction is signed only when the submit key is a private key.\<close>

definition createTopic ::
  "sdk \<Rightarrow> string \<Rightarrow> key option \<Rightarrow> world \<Rightarrow> (error + string option) \<times> world" where
  "createTopic s memo submitKey w =
     (case freezeWith s (new_transaction (TopicCreateTransaction (operatorPublicKey s w) submitKey memo)) of
        Inl e \<Rightarrow> (Inl e, w)
      | Inr frozenTx \<Rightarrow>
          (case (case submitKey of
                   Some (PrivateKey k) \<Rightarrow> sign s k frozenTx
                 | _ \<Rightarrow> Inr frozenTx) of
             Inl e \<Rightarrow> (Inl e, w)
           | Inr frozenTx' \<Rightarrow>
               (case executeTransaction s frozenTx' w of
                  (Inl e, w1) \<Rightarrow> (Inl e, w1)
                | (Inr r, w1) \<Rightarrow> (Inr (topicId r), push_topic (topicId r) w1))))"

text \<open>Lines 288-306: the step that creates a topic with the threshold key as submit key.\<close>

definition threshold_topic_step :: "sdk \<Rightarrow> string \<Rightarrow> world \<Rightarrow> (error + unit) \<times> world" where
  "threshold_topic_step s memo w =
     (case (secondAccount w, thresholdKey w) of
        (Some second, Some tk) \<Rightarrow>
          (case privateKeyFromStringED25519 s (privateKey second) of
             Inl e \<Rightarrow> (Inl e, w)
           | Inr secondPrivKey \<Rightarrow>
               (case freezeWith s (new_transaction
                        (TopicCreateTransaction (operatorPublicKey s w) (Some tk) memo)) of
                  Inl e \<Rightarrow> (Inl e, w)
                | Inr topicTx \<Rightarrow>
                    (case sign s secondPrivKey topicTx of
                       Inl e \<Rightarrow> (Inl e, w)
                     | Inr signedTx \<Rightarrow>
                         (case executeTransaction s signedTx w of
                            (Inl e, w1) \<Rightarrow> (Inl e, w1)
                          | (Inr r, w1) \<Rightarrow>
                              (let w2 = push_topic (topicId r) (w1\<lparr>context_topicId := topicId r\<rparr>) in
                               case topicId r of
                                 None \<Rightarrow> (Inl TypeError, w2)
                               | Some t \<Rightarrow>
                                   (Inr (), w2\<lparr>console := console w2 @
                                                  [TopicCreatedWithThresholdKey (Some t)]\<rparr>))))))
      | _ \<Rightarrow> (Inl (AssertionError (AssertOk ''Prerequisites not met'')), w))"

text \<open>\<^verbatim>\<open>part_000\<close>, lines 60-79: \<^verbatim>\<open>accountWithHBar\<close> creates an account through the client
  it is given. It has no access to \<^verbatim>\<open>context\<close> and writes nothing of the module state.\<close>

definition accountWithHBar :: "sdk \<Rightarrow> real \<Rightarrow> world \<Rightarrow> (error + Account) \<times> world" where
  "accountWithHBar s hbarAmount w =
     (let freshlyGeneratedKey = generateED25519 s in
      case execute s (new_transaction
             (AccountCreateTransaction (PublicKey (publicKey s freshlyGeneratedKey)) hbarAmount)) of
        Inl e \<Rightarrow> (Inl e, w)
      | Inr txResponse \<Rightarrow>
          (case getReceipt s txResponse of
             Inl e \<Rightarrow> (Inl e, w)
           | Inr r \<Rightarrow>
               (case accountId r of
                  None \<Rightarrow> (Inl TypeError, w)
                | Some newId \<Rightarrow> (Inr \<lparr>id' = newId, privateKey = freshlyGeneratedKey\<rparr>, w))))"

section \<open>Minting (\<^verbatim>\<open>part_000\<close>)\<close>

text \<open>Lines 140-153: \<^verbatim>\<open>mintTokens\<close> catches nothing, so whatever the SDK throws reaches the
  caller as it is. It reads \<^verbatim>\<open>tokenId\<close> and \<^verbatim>\<open>firstAccount\<close> and writes no module state.\<close>

definition mintTokens :: "sdk \<Rightarrow> real \<Rightarrow> world \<Rightarrow> error + string" where
  "mintTokens s tokenAmount w =
     (case freezeWith s (new_transaction (TokenMintTransaction (token_tokenId w) tokenAmount)) of
        Inl e \<Rightarrow> Inl e
      | Inr mintTx \<Rightarrow>
          (case token_firstAccount w of
             None \<Rightarrow> Inl TypeError
           | Some first \<Rightarrow>
               (case privateKeyFromStringED25519 s (privateKey first) of
                  Inl e \<Rightarrow> Inl e
                | Inr k \<Rightarrow>
                    (case sign s k mintTx of
                       Inl e \<Rightarrow> Inl e
                     | Inr signedTx \<Rightarrow>
                         (case execute s signedTx of
                            Inl e \<Rightarrow> Inl e
                          | Inr submitResp \<Rightarrow>
                              (case getReceipt s submitResp of
                                 Inl e \<Rightarrow> Inl e
                               | Inr finalReceipt \<Rightarrow> Inr (status finalReceipt)))))))"

text \<open>Lines 276-289: the step \<^verbatim>\<open>An attempt to mint tokens fails\<close>. Only a
  \<^verbatim>\<open>ReceiptStatusError\<close> is caught; anything else is logged and thrown again; the status
  code that was caught (\<^verbatim>\<open>undefined\<close> when nothing was thrown) must equal 236.\<close>

definition mint_fails_step :: "sdk \<Rightarrow> world \<Rightarrow> (error + unit) \<times> world" where
  "mint_fails_step s w =
     (case mintTokens s (token_tokenSupply w + 100) w of
        Inr st \<Rightarrow> (Inl (AssertionError (StrictEqual None 236)), w)
      | Inl (ReceiptStatusError code) \<Rightarrow>
          if code = 236 then (Inr (), w)
          else (Inl (AssertionError (StrictEqual (Some code) 236)), w)
      | Inl e \<Rightarrow> (Inl e, w\<lparr>console := console w @ [UnexpectedError e]\<rparr>))"

section \<open>Topic subscription matcher (\<^verbatim>\<open>create-simple-topic.ts\<close>, lines 183-215)\<close>

text \<open>
  \<^verbatim>\<open>subscribeToTopic\<close> returns a promise and registers three callbacks: the timer's, the
  subscription's error handler and its message handler. The state they share is the
  promise (\<open>wait\<close>), whether the timer of \<^verbatim>\<open>setTimeout\<close> is still scheduled, whether the
  subscription handle is still subscribed, and the console. \<^verbatim>\<open>resolve\<close> and \<^verbatim>\<open>reject\<close>
  change a promise only while it is pending.
\<close>

datatype wait = Pending | Resolved | Rejected error

record matcher =
  wait :: wait
  timer_armed :: bool
  subscribed :: bool
  matcher_console :: "log_line list"

definition resolve :: "matcher \<Rightarrow> matcher" where
  "resolve m = (if wait m = Pending then m\<lparr>wait := Resolved\<rparr> else m)"

definition reject :: "error \<Rightarrow> matcher \<Rightarrow> matcher" where
  "reject e m = (if wait m = Pending then m\<lparr>wait := Rejected e\<rparr> else m)"

definition clearTimeout :: "matcher \<Rightarrow> matcher" where
  "clearTimeout m = m\<lparr>timer_armed := False\<rparr>"

definition unsubscribe :: "matcher \<Rightarrow> matcher" where
  "unsubscribe m = m\<lparr>subscribed := False\<rparr>"

text \<open>Lines 190-192: the timer's callback. Once it has run the timer is no longer
  scheduled.\<close>

definition on_timeout :: "string \<Rightarrow> matcher \<Rightarrow> matcher" where
  "on_timeout expectedMessage m =
     reject (Error (''Timeout waiting for message: '' @ expectedMessage)) (m\<lparr>timer_armed := False\<rparr>)"

text \<open>Lines 199-202: the error handler.\<close>

definition on_error :: "error \<Rightarrow> matcher \<Rightarrow> matcher" where
  "on_error e m = reject e (clearTimeout m)"

text \<open>Lines 203-212: the message handler. \<open>decode\<close> is
  \<^verbatim>\<open>Buffer.from(contents).toString()\<close>, a function of the runtime.\<close>

definition on_message :: "('b \<Rightarrow> string) \<Rightarrow> string \<Rightarrow> 'b \<Rightarrow> matcher \<Rightarrow> matcher" where
  "on_message decode expectedMessage contents m =
     (let decodedContent = decode contents;
          m1 = m\<lparr>matcher_console := matcher_console m @ [ReceivedMessage decodedContent]\<rparr>
      in if decodedContent = expectedMessage
         then resolve (unsubscribe (clearTimeout m1))
         else m1)"

text \<open>What the subscription can deliver. The runtime calls a handler only while the
  handle is subscribed, and the timer's callback only while the timer is scheduled.\<close>

datatype 'b sub_event = Message 'b | SubscriptionError error

definition deliver :: "('b \<Rightarrow> string) \<Rightarrow> string \<Rightarrow> 'b sub_event \<Rightarrow> matcher \<Rightarrow> matcher" where
  "deliver decode expectedMessage ev m =
     (if subscribed m
      then (case ev of
              Message contents \<Rightarrow> on_message decode expectedMessage contents m
            | SubscriptionError e \<Rightarrow> on_error e m)
      else m)"

definition timer_fires :: "string \<Rightarrow> matcher \<Rightarrow> matcher" where
  "timer_fires expectedMessage m = (if timer_armed m then on_timeout expectedMessage m else m)"

text \<open>
  A run of the matcher over the events of the subscription, each with its time of
  delivery in milliseconds after the call. Events before the deadline are delivered
  first; the timer fires at the deadline, before any later event, and in any case once
  the events are exhausted.
\<close>

fun run_matcher ::
  "('b \<Rightarrow> string) \<Rightarrow> string \<Rightarrow> int \<Rightarrow> (int \<times> 'b sub_event) list \<Rightarrow> matcher \<Rightarrow> matcher" where
  "run_matcher decode expectedMessage deadline [] m = timer_fires expectedMessage m"
| "run_matcher decode expectedMessage deadline ((t, ev) # rest) m =
     (if t < deadline
      then run_matcher decode expectedMessage deadline rest (deliver decode expectedMessage ev m)
      else run_matcher decode expectedMessage deadline rest
             (deliver decode expectedMessage ev (timer_fires expectedMessage m)))"

text \<open>Lines 184-198: the call itself, with the default of the \<^verbatim>\<open>timeout\<close> parameter. The
  topic id only goes to the query and is left out.\<close>

definition subscribed_matcher :: matcher where
  "subscribed_matcher = \<lparr>wait = Pending, timer_armed = True, subscribed = True, matcher_console = []\<rparr>"

definition timeout_or_default :: "int option \<Rightarrow> int" where
  "timeout_or_default timeout = (case timeout of None \<Rightarrow> 10000 | Some t \<Rightarrow> t)"

definition subscribeToTopic ::
  "('b \<Rightarrow> string) \<Rightarrow> string \<Rightarrow> int option \<Rightarrow> (int \<times> 'b sub_event) list \<Rightarrow> matcher" where
  "subscribeToTopic decode expectedMessage timeout evs =
     run_matcher decode expectedMessage (timeout_or_default timeout) evs subscribed_matcher"

section \<open>Message publisher (\<^verbatim>\<open>create-simple-topic.ts\<close>, lines 123-160)\<close>

record PendingMessage =
  message :: string
  message_topicId :: string
  submitKey :: "string option"

text \<open>
  One entry of a flush is an async function: its synchronous part builds and freezes the
  transaction, then it waits for \<^verbatim>\<open>sign\<close> (when a key is present), for \<^verbatim>\<open>execute\<close> and
  for \<^verbatim>\<open>getReceipt\<close> (both inside \<^verbatim>\<open>executeTransaction\<close>). A stage says which await is
  pending, or how the entry has settled.
\<close>

datatype stage =
    AwaitingSign transaction
  | AwaitingExecute transaction
  | AwaitingReceipt string
  | Receipted receipt
  | Failed error

text \<open>Lines 146-153 up to the first await.\<close>

definition start_task :: "sdk \<Rightarrow> PendingMessage \<Rightarrow> stage" where
  "start_task s entry =
     (case freezeWith s (new_transaction
             (TopicMessageSubmitTransaction (message_topicId entry) (message entry))) of
        Inl e \<Rightarrow> Failed e
      | Inr submitTx \<Rightarrow>
          (case submitKey entry of
             Some k \<Rightarrow> AwaitingSign submitTx
           | None \<Rightarrow> AwaitingExecute submitTx))"

text \<open>The pending await of an entry completes: the next stage and the lines logged
  (lines 152-156 with \<^verbatim>\<open>executeTransaction\<close>, lines 50-56).\<close>

definition advance_task :: "sdk \<Rightarrow> PendingMessage \<Rightarrow> stage \<Rightarrow> stage \<times> log_line list" where
  "advance_task s entry st =
     (case st of
        AwaitingSign submitTx \<Rightarrow>
          (case submitKey entry of
             Some k \<Rightarrow>
               (case sign s k submitTx of
                  Inl e \<Rightarrow> (Failed e, [])
                | Inr signedTx \<Rightarrow> (AwaitingExecute signedTx, []))
           | None \<Rightarrow> (AwaitingExecute submitTx, []))
      | AwaitingExecute submitTx \<Rightarrow>
          (case execute s submitTx of
             Inl e \<Rightarrow> (Failed e, [TransactionFailed e])
           | Inr response \<Rightarrow> (AwaitingReceipt response, []))
      | AwaitingReceipt response \<Rightarrow>
          (case getReceipt s response of
             Inl e \<Rightarrow> (Failed e, [TransactionFailed e])
           | Inr r \<Rightarrow> (Receipted r, [MessageSubmitted (message_topicId entry) (status r)]))
      | Receipted r \<Rightarrow> (st, [])
      | Failed e \<Rightarrow> (st, []))"

definition next_stage :: "sdk \<Rightarrow> PendingMessage \<Rightarrow> stage \<Rightarrow> stage" where
  "next_stage s entry st = fst (advance_task s entry st)"

fun is_receipted :: "stage \<Rightarrow> bool" where
  "is_receipted (Receipted r) = True"
| "is_receipted st = False"

fun settled :: "stage \<Rightarrow> bool" where
  "settled (Receipted r) = True"
| "settled (Failed e) = True"
| "settled st = False"

fun first_failure :: "stage list \<Rightarrow> error option" where
  "first_failure [] = None"
| "first_failure (Failed e # sts) = Some e"
| "first_failure (st # sts) = first_failure sts"

text \<open>
  A flush in flight: the snapshot's entries, the SDK behaviour each entry meets (by
  position, so that two equal messages may fare differently), the stage of each entry,
  the promise of \<^verbatim>\<open>Promise.all\<close> (which is what \<^verbatim>\<open>flushMessages\<close> awaits and so settles
  as) and the lines the flush has logged.
\<close>

record flush =
  entries :: "PendingMessage list"
  flush_net :: "nat \<Rightarrow> sdk"
  stages :: "stage list"
  all_promise :: wait
  flush_console :: "log_line list"

text \<open>Lines 144-145: \<^verbatim>\<open>messages.map(async ...)\<close> runs the synchronous part of every entry,
  in order, before anything is awaited; \<^verbatim>\<open>Promise.all\<close> of no promise is fulfilled, and
  one of its inputs that is already rejected rejects it.\<close>

definition start_flush :: "(nat \<Rightarrow> sdk) \<Rightarrow> PendingMessage list \<Rightarrow> flush" where
  "start_flush net messages =
     (let sts = map (\<lambda>i. start_task (net i) (messages ! i)) [0 ..< length messages] in
      \<lparr>entries = messages, flush_net = net, stages = sts,
       all_promise = (case first_failure sts of
                        Some e \<Rightarrow> Rejected e
                      | None \<Rightarrow> if sts = [] then Resolved else Pending),
       flush_console = []\<rparr>)"

text \<open>The pending await of entry \<open>i\<close> completes. \<^verbatim>\<open>Promise.all\<close> rejects at the first
  rejection and is fulfilled once every entry is; nothing of the other entries changes.\<close>

definition flush_step :: "nat \<Rightarrow> flush \<Rightarrow> flush" where
  "flush_step i f =
     (if i < length (stages f) \<and> \<not> settled (stages f ! i)
      then (case advance_task (flush_net f i) (entries f ! i) (stages f ! i) of
              (st, lines) \<Rightarrow>
                f\<lparr>stages := (stages f)[i := st],
                  all_promise :=
                    (if all_promise f \<noteq> Pending then all_promise f
                     else (case st of
                             Failed e \<Rightarrow> Rejected e
                           | _ \<Rightarrow> if list_all is_receipted ((stages f)[i := st])
                                  then Resolved else Pending)),
                  flush_console := flush_console f @ lines\<rparr>)
      else f)"

text \<open>A schedule is the order in which the awaits complete: the entry of each
  completion.\<close>

fun run_flush :: "nat list \<Rightarrow> flush \<Rightarrow> flush" where
  "run_flush [] f = f"
| "run_flush (i # sched) f = run_flush sched (flush_step i f)"

text \<open>
  The publisher object. Arrays are objects on a heap (\<open>arrays\<close>, by address; \<open>fresh\<close> is
  the next unused address) and \<open>pendingMessages\<close> holds a reference, so that copying the
  array (\<^verbatim>\<open>[...this.pendingMessages]\<close>) and replacing it (\<^verbatim>\<open>this.pendingMessages = []\<close>)
  are distinct from mutating it (\<^verbatim>\<open>push\<close>). \<open>in_flight\<close> holds the flushes started so far.
\<close>

record MessagePublisher =
  arrays :: "nat \<Rightarrow> PendingMessage list"
  fresh :: nat
  pendingMessages :: nat
  in_flight :: "flush list"

definition new_MessagePublisher :: MessagePublisher where
  "new_MessagePublisher = \<lparr>arrays = (\<lambda>a. []), fresh = 1, pendingMessages = 0, in_flight = []\<rparr>"

definition queued :: "MessagePublisher \<Rightarrow> PendingMessage list" where
  "queued p = arrays p (pendingMessages p)"

text \<open>Lines 140-159 up to the await: the copy, the new empty queue, then the entries
  of the copy are started.\<close>

definition flushMessages :: "(nat \<Rightarrow> sdk) \<Rightarrow> MessagePublisher \<Rightarrow> MessagePublisher" where
  "flushMessages net p =
     (let messages = fresh p;
          p1 = p\<lparr>arrays := (arrays p)(messages := arrays p (pendingMessages p)),
                 fresh := fresh p + 1\<rparr>;
          p2 = p1\<lparr>arrays := (arrays p1)(fresh p1 := []),
                  pendingMessages := fresh p1,
                  fresh := fresh p1 + 1\<rparr>
      in p2\<lparr>in_flight := in_flight p2 @ [start_flush net (arrays p2 messages)]\<rparr>)"

text \<open>Lines 131-138. \<open>net\<close> is the SDK behaviour the entries meet should this call
  flush.\<close>

definition publish :: "(nat \<Rightarrow> sdk) \<Rightarrow> PendingMessage \<Rightarrow> MessagePublisher \<Rightarrow> MessagePublisher" where
  "publish net entry p =
     (let p1 = p\<lparr>arrays := (arrays p)(pendingMessages p := arrays p (pendingMessages p) @ [entry])\<rparr>
      in if length (arrays p1 (pendingMessages p1)) \<ge> 5 then flushMessages net p1 else p1)"

fun publish_all ::
  "(nat \<Rightarrow> sdk) \<Rightarrow> PendingMessage list \<Rightarrow> MessagePublisher \<Rightarrow> MessagePublisher" where
  "publish_all net [] p = p"
| "publish_all net (entry # rest) p = publish_all net rest (publish net entry p)"

section \<open>Concrete inputs\<close>

text \<open>A module state before any step has run, two configured accounts, and an SDK whose
  calls all succeed: account \<open>0.0.1001\<close> holds 5 hbar and 7 units of token \<open>0.0.77\<close>, every
  other account 50 hbar; a receipt names the account \<open>0.0.5005\<close> and the topic
  \<open>0.0.6006\<close>.\<close>

definition initial_world :: world where
  "initial_world =
     \<lparr>operator = None, context_topicId = None, thresholdKey = None, firstAccount = None,
      secondAccount = None, createdResources = \<lparr>topics = [], accounts = []\<rparr>,
      balanceCache = Map.empty, token_operator = None, token_firstAccount = None,
      token_secondAccount = None, token_tokenId = None, token_tokenSupply = 0,
      balanceQueries = [], console = []\<rparr>"

definition alice :: Account where
  "alice = \<lparr>id' = ''0.0.1001'', privateKey = ''key-a''\<rparr>"

definition bob :: Account where
  "bob = \<lparr>id' = ''0.0.1002'', privateKey = ''key-b''\<rparr>"

definition example_sdk :: sdk where
  "example_sdk =
     \<lparr>accountIdFromString = Inr,
      privateKeyFromStringED25519 = Inr,
      generateED25519 = ''fresh-key'',
      publicKey = (\<lambda>k. ''pub-'' @ k),
      accountBalanceQuery =
        (\<lambda>a. if a = ''0.0.1001''
             then Inr \<lparr>hbars = 5, token_map = Some [''0.0.77'' \<mapsto> 7]\<rparr>
             else Inr \<lparr>hbars = 50, token_map = None\<rparr>),
      freezeWith = (\<lambda>tx. Inr (tx\<lparr>frozen := True\<rparr>)),
      sign = (\<lambda>k tx. Inr (tx\<lparr>signatures := signatures tx @ [k]\<rparr>)),
      execute = (\<lambda>tx. Inr ''tx-1''),
      getReceipt = (\<lambda>response. Inr \<lparr>status = ''SUCCESS'', accountId = Some ''0.0.5005'',
                                     topicId = Some ''0.0.6006''\<rparr>)\<rparr>"

text \<open>The same SDK on a ledger that rejects the receipt with status code 236.\<close>

definition rejecting_sdk :: sdk where
  "rejecting_sdk = example_sdk\<lparr>getReceipt := (\<lambda>response. Inl (ReceiptStatusError 236))\<rparr>"

text \<open>A module state whose cache holds 100 hbar for \<open>0.0.1001\<close>, stored at time 0.\<close>

definition cached_world :: world where
  "cached_world =
     initial_world\<lparr>balanceCache := [''0.0.1001'' \<mapsto> \<lparr>balance = 100, timestamp = 0\<rparr>]\<rparr>"

text \<open>An SDK whose \<^verbatim>\<open>execute\<close> fails with a plain error, one whose live balances have
  all changed to 999 hbar, and the token module after a fixed-supply token of 1000 was
  created by \<open>0.0.1001\<close>.\<close>

definition failing_sdk :: sdk where
  "failing_sdk = example_sdk\<lparr>execute := (\<lambda>tx. Inl (Error ''UNAVAILABLE''))\<rparr>"

definition changed_sdk :: sdk where
  "changed_sdk =
     example_sdk\<lparr>accountBalanceQuery := (\<lambda>a. Inr \<lparr>hbars = 999, token_map = None\<rparr>)\<rparr>"

definition token_world :: world where
  "token_world =
     initial_world\<lparr>token_firstAccount := Some alice, token_tokenId := Some ''0.0.77'',
                   token_tokenSupply := 1000\<rparr>"

text \<open>Messages for topic \<open>0.0.6006\<close>, the first signed, and a network on which the
  first entry of a flush fails and the others succeed.\<close>

definition hello :: PendingMessage where
  "hello = \<lparr>message = ''hello'', message_topicId = ''0.0.6006'', submitKey = Some ''key-a''\<rparr>"

definition world_msg :: PendingMessage where
  "world_msg = \<lparr>message = ''world'', message_topicId = ''0.0.6006'', submitKey = None\<rparr>"

definition first_fails :: "nat \<Rightarrow> sdk" where
  "first_fails i = (if i = 0 then failing_sdk else example_sdk)"

text \<open>The module state of the topic steps once the second account and a 1-of-2 threshold
  key are set.\<close>

definition threshold_world :: world where
  "threshold_world =
     initial_world\<lparr>secondAccount := Some bob,
                   thresholdKey := Some (KeyList [PublicKey ''pub-key-a'', PublicKey ''pub-key-b''] 1)\<rparr>"

text \<open>The live answers of \<open>example_sdk\<close>, by account.\<close>

definition example_live :: "Account \<Rightarrow> AccountBalance" where
  "example_live a =
     (if id' a = ''0.0.1001'' then \<lparr>hbars = 5, token_map = Some [''0.0.77'' \<mapsto> 7]\<rparr>
      else \<lparr>hbars = 50, token_map = None\<rparr>)"

text \<open>An SDK on a ledger where every account holds 100 hbar.\<close>

definition rich_sdk :: sdk where
  "rich_sdk =
     example_sdk\<lparr>accountBalanceQuery := (\<lambda>a. Inr \<lparr>hbars = 100, token_map = None\<rparr>)\<rparr>"

section \<open>Balance cache: properties\<close>

lemma getHbarBalance_hit:
  "cached_balance now w account = Some b \<Longrightarrow> getHbarBalance s now now' account w = (Inr b, w)"
  by (simp add: getHbarBalance_def)

lemma getHbarBalance_miss:
  "cached_balance now w account = None \<Longrightarrow>
   getHbarBalance s now now' account w = getHbarBalance_query s now' account w"
  by (simp add: getHbarBalance_def)

lemma getHbarBalance_query_ok:
  "accountIdFromString s (id' account) = Inr aid \<Longrightarrow> accountBalanceQuery s aid = Inr r \<Longrightarrow>
   getHbarBalance_query s now' account w =
     (Inr (hbars r),
      w\<lparr>balanceQueries := balanceQueries w @ [aid],
        balanceCache := (balanceCache w)(id' account \<mapsto> \<lparr>balance = hbars r, timestamp = now'\<rparr>)\<rparr>)"
  by (simp add: getHbarBalance_query_def Let_def)

lemma cached_balance_None_iff:
  "cached_balance now w account = None \<longleftrightarrow>
     (balanceCache w (id' account) = None \<or>
      (\<exists>e. balanceCache w (id' account) = Some e \<and> CACHE_TTL \<le> now - timestamp e))"
  by (auto simp add: cached_balance_def split: option.splits)

lemma getHbarBalance_query_stores:
  "getHbarBalance_query s now' account w = (Inr b, w1) \<Longrightarrow>
   balanceCache w1 (id' account) = Some \<lparr>balance = b, timestamp = now'\<rparr>"
  by (auto simp add: getHbarBalance_query_def Let_def split: sum.splits)

text \<open>
  C9. The cached hbar lookup. (1) While the entry of the account is younger than
  \<open>CACHE_TTL\<close> = 5000 ms, \<^verbatim>\<open>getHbarBalance\<close> returns the cached balance and leaves the module
  state as it is: no query is added to the trace, whatever the SDK would answer. (2) With
  no entry, or one that has expired, it queries the network, stores the answer under the
  account's id with the time of storing, and returns it. (3) So after a call that
  queried and stored at \<open>now'\<close>, a second call for the same account id less than 5000 ms
  later returns the identical value and changes nothing, for any SDK \<open>s2\<close>, that is even
  if the live balance has changed.
\<close>

theorem getHbarBalance_ttl:
  "(balanceCache w (id' account) = Some e \<and> now - timestamp e < CACHE_TTL \<longrightarrow>
        getHbarBalance s now now' account w = (Inr (balance e), w))
   \<and> ((balanceCache w (id' account) = None \<or>
         (\<exists>e. balanceCache w (id' account) = Some e \<and> CACHE_TTL \<le> now - timestamp e))
        \<and> accountIdFromString s (id' account) = Inr aid \<and> accountBalanceQuery s aid = Inr r \<longrightarrow>
        getHbarBalance s now now' account w =
          (Inr (hbars r),
           w\<lparr>balanceQueries := balanceQueries w @ [aid],
             balanceCache := (balanceCache w)(id' account \<mapsto>
               \<lparr>balance = hbars r, timestamp = now'\<rparr>)\<rparr>))
   \<and> ((balanceCache w (id' account) = None \<or>
         (\<exists>e. balanceCache w (id' account) = Some e \<and> CACHE_TTL \<le> now - timestamp e))
        \<and> getHbarBalance s now now' account w = (Inr b, w1)
        \<and> id' account2 = id' account \<and> later - now' < CACHE_TTL \<longrightarrow>
        getHbarBalance s2 later later' account2 w1 = (Inr b, w1))"
proof (intro conjI impI)
  assume "balanceCache w (id' account) = Some e \<and> now - timestamp e < CACHE_TTL"
  then have "cached_balance now w account = Some (balance e)"
    by (simp add: cached_balance_def)
  then show "getHbarBalance s now now' account w = (Inr (balance e), w)"
    by (rule getHbarBalance_hit)
next
  assume a: "(balanceCache w (id' account) = None \<or>
         (\<exists>e. balanceCache w (id' account) = Some e \<and> CACHE_TTL \<le> now - timestamp e))
        \<and> accountIdFromString s (id' account) = Inr aid \<and> accountBalanceQuery s aid = Inr r"
  then have "cached_balance now w account = None"
    by (simp add: cached_balance_None_iff)
  then show "getHbarBalance s now now' account w =
          (Inr (hbars r),
           w\<lparr>balanceQueries := balanceQueries w @ [aid],
             balanceCache := (balanceCache w)(id' account \<mapsto>
               \<lparr>balance = hbars r, timestamp = now'\<rparr>)\<rparr>)"
    using a by (simp add: getHbarBalance_miss getHbarBalance_query_ok)
next
  assume a: "(balanceCache w (id' account) = None \<or>
         (\<exists>e. balanceCache w (id' account) = Some e \<and> CACHE_TTL \<le> now - timestamp e))
        \<and> getHbarBalance s now now' account w = (Inr b, w1)
        \<and> id' account2 = id' account \<and> later - now' < CACHE_TTL"
  then have "cached_balance now w account = None"
    by (simp add: cached_balance_None_iff)
  with a have "getHbarBalance_query s now' account w = (Inr b, w1)"
    by (simp add: getHbarBalance_miss)
  then have "balanceCache w1 (id' account2) = Some \<lparr>balance = b, timestamp = now'\<rparr>"
    using a by (simp add: getHbarBalance_query_stores)
  then have "cached_balance later w1 account2 = Some b"
    using a by (simp add: cached_balance_def)
  then show "getHbarBalance s2 later later' account2 w1 = (Inr b, w1)"
    by (rule getHbarBalance_hit)
qed

lemma getHbarBalance_first_call:
  "getHbarBalance example_sdk 10 20 alice initial_world =
     (Inr 5, initial_world\<lparr>balanceQueries := [''0.0.1001''],
        balanceCache := [''0.0.1001'' \<mapsto> \<lparr>balance = 5, timestamp = 20\<rparr>]\<rparr>)"
  by (simp add: getHbarBalance_def getHbarBalance_query_def cached_balance_def
      initial_world_def alice_def example_sdk_def)

text \<open>Witness of C9: the entry of \<open>0.0.1001\<close> (100 hbar, stored at 0) is served at time 1000
  although the live balance is 5; at time 6000 it has expired and the live 5 is fetched
  and stored; and a first call at 10, stored at 20, is repeated at 3000 against an SDK
  whose live balance is now 999.\<close>

theorem getHbarBalance_ttl_witness:
  "getHbarBalance example_sdk 1000 1001 alice cached_world = (Inr 100, cached_world)
   \<and> getHbarBalance example_sdk 6000 6001 alice cached_world =
       (Inr 5, cached_world\<lparr>balanceQueries := [''0.0.1001''],
          balanceCache := [''0.0.1001'' \<mapsto> \<lparr>balance = 5, timestamp = 6001\<rparr>]\<rparr>)
   \<and> getHbarBalance changed_sdk 3000 3001 alice
        (initial_world\<lparr>balanceQueries := [''0.0.1001''],
           balanceCache := [''0.0.1001'' \<mapsto> \<lparr>balance = 5, timestamp = 20\<rparr>]\<rparr>) =
       (Inr 5, initial_world\<lparr>balanceQueries := [''0.0.1001''],
           balanceCache := [''0.0.1001'' \<mapsto> \<lparr>balance = 5, timestamp = 20\<rparr>]\<rparr>)"
proof (intro conjI)
  have c: "balanceCache cached_world (id' alice) = Some \<lparr>balance = 100, timestamp = 0\<rparr>"
    by (simp add: cached_world_def initial_world_def alice_def)
  have q: "accountIdFromString example_sdk (id' alice) = Inr ''0.0.1001''"
    "accountBalanceQuery example_sdk ''0.0.1001'' = Inr \<lparr>hbars = 5, token_map = Some [''0.0.77'' \<mapsto> 7]\<rparr>"
    by (simp_all add: example_sdk_def alice_def)
  show "getHbarBalance example_sdk 1000 1001 alice cached_world = (Inr 100, cached_world)"
    using getHbarBalance_ttl [of cached_world alice "\<lparr>balance = 100, timestamp = 0\<rparr>" 1000
        example_sdk 1001] c
    by (simp add: CACHE_TTL_def)
  show "getHbarBalance example_sdk 6000 6001 alice cached_world =
       (Inr 5, cached_world\<lparr>balanceQueries := [''0.0.1001''],
          balanceCache := [''0.0.1001'' \<mapsto> \<lparr>balance = 5, timestamp = 6001\<rparr>]\<rparr>)"
    using getHbarBalance_ttl [of cached_world alice _ 6000 example_sdk 6001 "''0.0.1001''"
        "\<lparr>hbars = 5, token_map = Some [''0.0.77'' \<mapsto> 7]\<rparr>"] c q
    by (simp add: CACHE_TTL_def cached_world_def initial_world_def alice_def)
  show "getHbarBalance changed_sdk 3000 3001 alice
        (initial_world\<lparr>balanceQueries := [''0.0.1001''],
           balanceCache := [''0.0.1001'' \<mapsto> \<lparr>balance = 5, timestamp = 20\<rparr>]\<rparr>) =
       (Inr 5, initial_world\<lparr>balanceQueries := [''0.0.1001''],
           balanceCache := [''0.0.1001'' \<mapsto> \<lparr>balance = 5, timestamp = 20\<rparr>]\<rparr>)"
    using getHbarBalance_ttl [of initial_world alice _ 10 example_sdk 20 _ _ 5
        "initial_world\<lparr>balanceQueries := [''0.0.1001''],
           balanceCache := [''0.0.1001'' \<mapsto> \<lparr>balance = 5, timestamp = 20\<rparr>]\<rparr>"
        alice 3000 changed_sdk 3001] getHbarBalance_first_call
    by (simp add: CACHE_TTL_def initial_world_def)
qed

section \<open>Token-aware balance query: properties\<close>

text \<open>
  C10. \<^verbatim>\<open>getAccountBalance\<close> of \<^verbatim>\<open>part_000\<close> sends a query on every call (the trace grows by
  the account), never writes the balance cache, never reads it (with any other cache
  \<open>c\<close> the result is the same and the state differs only by that cache), and its result
  is the live answer: the hbars, and the token amount of the answer's map or 0. Only
  \<^verbatim>\<open>getHbarBalance\<close> is memoized: where it serves a cached balance \<open>b\<close> without a query,
  \<^verbatim>\<open>getAccountBalance\<close> on the same state still queries.
\<close>

theorem getAccountBalance_always_live:
  "balanceQueries (snd (getAccountBalance s account token w)) = balanceQueries w @ [id' account]
   \<and> balanceCache (snd (getAccountBalance s account token w)) = balanceCache w
   \<and> getAccountBalance s account token (w\<lparr>balanceCache := c\<rparr>) =
       (fst (getAccountBalance s account token w),
        (snd (getAccountBalance s account token w))\<lparr>balanceCache := c\<rparr>)
   \<and> fst (getAccountBalance s account token w) =
       (case accountBalanceQuery s (id' account) of
          Inl e \<Rightarrow> Inl e
        | Inr result \<Rightarrow>
            Inr \<lparr>hbar = hbars result,
                 tokens = (case (token, token_map result) of
                             (Some t, Some tm) \<Rightarrow> (case tm t of Some n \<Rightarrow> n | None \<Rightarrow> 0)
                           | _ \<Rightarrow> 0)\<rparr>)
   \<and> (cached_balance now w account = Some b \<longrightarrow>
        getHbarBalance s now now' account w = (Inr b, w) \<and>
        balanceQueries (snd (getAccountBalance s account token w)) \<noteq> balanceQueries w)"
  by (simp add: getAccountBalance_def getHbarBalance_hit Let_def split: sum.splits)

text \<open>Witness of C10: within the TTL of the cached 100 hbar, the hbar lookup answers 100
  with no query, and the token-aware query answers the live 5 hbar and 7 tokens and is
  on the trace.\<close>

theorem getAccountBalance_always_live_witness:
  "cached_balance 1000 cached_world alice = Some 100
   \<and> getHbarBalance example_sdk 1000 1001 alice cached_world = (Inr 100, cached_world)
   \<and> fst (getAccountBalance example_sdk alice (Some ''0.0.77'') cached_world) =
       Inr \<lparr>hbar = 5, tokens = 7\<rparr>
   \<and> balanceQueries (snd (getAccountBalance example_sdk alice (Some ''0.0.77'') cached_world)) =
       [''0.0.1001'']
   \<and> balanceCache (snd (getAccountBalance example_sdk alice (Some ''0.0.77'') cached_world)) =
       balanceCache cached_world"
proof -
  have c: "cached_balance 1000 cached_world alice = Some 100"
    by (simp add: cached_balance_def cached_world_def initial_world_def alice_def CACHE_TTL_def)
  have q: "accountBalanceQuery example_sdk (id' alice) =
      Inr \<lparr>hbars = 5, token_map = Some [''0.0.77'' \<mapsto> 7]\<rparr>"
    by (simp add: example_sdk_def alice_def)
  have t: "balanceQueries cached_world = []"
    by (simp add: cached_world_def initial_world_def)
  show ?thesis
    using getAccountBalance_always_live [of example_sdk alice "Some ''0.0.77''" cached_world
        "balanceCache cached_world" 1000 100 1001] c q t
    by (simp add: alice_def)
qed

section \<open>Account pool resolvers: properties\<close>

lemma Promise_all_Inr: "Promise_all (map Inr vs) = Inr vs"
  by (induction vs) simp_all

lemma find_zip_map:
  "find (\<lambda>(a, b). P b) (zip xs (map f xs)) = map_option (\<lambda>a. (a, f a)) (find (\<lambda>a. P (f a)) xs)"
  by (induction xs) simp_all

lemma getHbarBalance_query_frame:
  "operator (snd (getHbarBalance_query s t account w)) = operator w \<and>
   firstAccount (snd (getHbarBalance_query s t account w)) = firstAccount w"
  by (simp add: getHbarBalance_query_def Let_def split: sum.splits)

text \<open>When every parse and query succeeds, the concurrent lookups return, per account,
  the cached balance where the cache test hit and the live one where it missed, and leave
  the operator and \<^verbatim>\<open>context.firstAccount\<close> alone.\<close>

lemma getHbarBalance_all_ok:
  assumes "\<forall>a\<in>set pool. accountIdFromString s (id' a) = Inr (idOf a) \<and>
             accountBalanceQuery s (idOf a) = Inr (live a)"
  shows "fst (getHbarBalance_all s now' (map (\<lambda>a. (a, c a)) pool) w) =
           map (\<lambda>a. Inr (case c a of Some b \<Rightarrow> b | None \<Rightarrow> hbars (live a))) pool
         \<and> operator (snd (getHbarBalance_all s now' (map (\<lambda>a. (a, c a)) pool) w)) = operator w
         \<and> firstAccount (snd (getHbarBalance_all s now' (map (\<lambda>a. (a, c a)) pool) w)) = firstAccount w"
  using assms
proof (induction pool arbitrary: w)
  case Nil
  then show ?case by simp
next
  case (Cons a pool)
  then have ih: "\<And>w. fst (getHbarBalance_all s now' (map (\<lambda>a. (a, c a)) pool) w) =
           map (\<lambda>a. Inr (case c a of Some b \<Rightarrow> b | None \<Rightarrow> hbars (live a))) pool
         \<and> operator (snd (getHbarBalance_all s now' (map (\<lambda>a. (a, c a)) pool) w)) = operator w
         \<and> firstAccount (snd (getHbarBalance_all s now' (map (\<lambda>a. (a, c a)) pool) w)) = firstAccount w"
    by simp
  from Cons.prems have a: "accountIdFromString s (id' a) = Inr (idOf a)"
    "accountBalanceQuery s (idOf a) = Inr (live a)" by simp_all
  show ?case
  proof (cases "c a")
    case None
    obtain r w1 where q: "getHbarBalance_query s (now' a) a w = (r, w1)"
      by (cases "getHbarBalance_query s (now' a) a w")
    have r: "r = Inr (hbars (live a))"
      using q a by (simp add: getHbarBalance_query_def Let_def)
    have f: "operator w1 = operator w" "firstAccount w1 = firstAccount w"
      using getHbarBalance_query_frame [of s "now' a" a w] q by simp_all
    obtain rs w2 where rest: "getHbarBalance_all s now' (map (\<lambda>a. (a, c a)) pool) w1 = (rs, w2)"
      by (cases "getHbarBalance_all s now' (map (\<lambda>a. (a, c a)) pool) w1")
    show ?thesis using None q r f ih [of w1] rest
      by simp
  next
    case (Some b)
    obtain rs w2 where rest: "getHbarBalance_all s now' (map (\<lambda>a. (a, c a)) pool) w = (rs, w2)"
      by (cases "getHbarBalance_all s now' (map (\<lambda>a. (a, c a)) pool) w")
    show ?thesis using Some ih [of w] rest by simp
  qed
qed

lemma hedera_account_step_ok:
  assumes "\<forall>a\<in>set pool. accountIdFromString s (id' a) = Inr (idOf a) \<and>
             privateKeyFromStringED25519 s (privateKey a) = Inr (keyOf a) \<and>
             accountBalanceQuery s (id' a) = Inr (live a)"
  shows "(case find (\<lambda>a. hbars (live a) > m) pool of
            Some a \<Rightarrow>
              fst (hedera_account_step s m pool w) = Inr () \<and>
              token_operator (snd (hedera_account_step s m pool w)) = Some (idOf a, keyOf a) \<and>
              token_firstAccount (snd (hedera_account_step s m pool w)) = Some a
          | None \<Rightarrow>
              fst (hedera_account_step s m pool w) = Inl (AssertionError (NoAccountInConfig m)) \<and>
              token_operator (snd (hedera_account_step s m pool w)) = token_operator w \<and>
              token_firstAccount (snd (hedera_account_step s m pool w)) = token_firstAccount w)"
  using assms
proof (induction pool arbitrary: w)
  case Nil
  then show ?case by simp
next
  case (Cons a pool)
  let ?w1 = "w\<lparr>balanceQueries := balanceQueries w @ [id' a]\<rparr>"
  from Cons.prems have a: "accountIdFromString s (id' a) = Inr (idOf a)"
    "privateKeyFromStringED25519 s (privateKey a) = Inr (keyOf a)"
    "accountBalanceQuery s (id' a) = Inr (live a)" by simp_all
  have g: "getAccountBalance s a None w = (Inr \<lparr>hbar = hbars (live a), tokens = 0\<rparr>, ?w1)"
    using a by (simp add: getAccountBalance_def Let_def)
  show ?case
  proof (cases "hbars (live a) > m")
    case True
    then show ?thesis using a g by simp
  next
    case False
    have eq: "hedera_account_step s m (a # pool) w = hedera_account_step s m pool ?w1"
      using a g False by simp
    have fe: "find (\<lambda>a. hbars (live a) > m) (a # pool) = find (\<lambda>a. hbars (live a) > m) pool"
      using False by simp
    have ih: "(case find (\<lambda>a. hbars (live a) > m) pool of
            Some a \<Rightarrow>
              fst (hedera_account_step s m pool ?w1) = Inr () \<and>
              token_operator (snd (hedera_account_step s m pool ?w1)) = Some (idOf a, keyOf a) \<and>
              token_firstAccount (snd (hedera_account_step s m pool ?w1)) = Some a
          | None \<Rightarrow>
              fst (hedera_account_step s m pool ?w1) = Inl (AssertionError (NoAccountInConfig m)) \<and>
              token_operator (snd (hedera_account_step s m pool ?w1)) = token_operator w \<and>
              token_firstAccount (snd (hedera_account_step s m pool ?w1)) = token_firstAccount w)"
      using Cons.IH [of ?w1] Cons.prems by (simp split: option.splits)
    show ?thesis unfolding eq fe by (rule ih)
  qed
qed

lemma first_account_step_ok:
  assumes "\<forall>a\<in>set pool. accountIdFromString s (id' a) = Inr (idOf a) \<and>
             privateKeyFromStringED25519 s (privateKey a) = Inr (keyOf a) \<and>
             accountBalanceQuery s (idOf a) = Inr (live a)"
  shows "(case find (\<lambda>a. (case cached_balance now w a of Some b \<Rightarrow> b | None \<Rightarrow> hbars (live a)) > m) pool of
            Some a \<Rightarrow>
              fst (first_account_step s now now' pool m w) = Inr () \<and>
              operator (snd (first_account_step s now now' pool m w)) = Some (idOf a, keyOf a) \<and>
              firstAccount (snd (first_account_step s now now' pool m w)) = Some a
          | None \<Rightarrow>
              fst (first_account_step s now now' pool m w) = Inl (AssertionError (NoConfiguredAccount m)) \<and>
              operator (snd (first_account_step s now now' pool m w)) = operator w \<and>
              firstAccount (snd (first_account_step s now now' pool m w)) = firstAccount w)"
proof -
  let ?used = "\<lambda>a. case cached_balance now w a of Some b \<Rightarrow> b | None \<Rightarrow> hbars (live a)"
  let ?all = "getHbarBalance_all s now' (map (\<lambda>a. (a, cached_balance now w a)) pool) w"
  obtain rs w1 where all: "?all = (rs, w1)" by (cases ?all)
  have h: "\<forall>a\<in>set pool. accountIdFromString s (id' a) = Inr (idOf a) \<and>
             accountBalanceQuery s (idOf a) = Inr (live a)"
    using assms by simp
  have rs: "rs = map (\<lambda>a. Inr (?used a)) pool" and f: "operator w1 = operator w" "firstAccount w1 = firstAccount w"
    using getHbarBalance_all_ok [OF h, of now' "cached_balance now w" w] all by simp_all
  have pa: "Promise_all rs = Inr (map ?used pool)"
    using rs Promise_all_Inr [of "map ?used pool"] by (simp add: comp_def)
  have fz: "find (\<lambda>(a, b). b > m) (zip pool (map ?used pool)) =
            map_option (\<lambda>a. (a, ?used a)) (find (\<lambda>a. ?used a > m) pool)"
    using find_zip_map [of "\<lambda>b. b > m" pool ?used] by simp
  show ?thesis
  proof (cases "find (\<lambda>a. ?used a > m) pool")
    case None
    then show ?thesis using all pa fz f
      by (simp add: first_account_step_def)
  next
    case (Some a)
    then have "a \<in> set pool" by (auto simp add: find_Some_iff)
    then have "accountIdFromString s (id' a) = Inr (idOf a)"
      "privateKeyFromStringED25519 s (privateKey a) = Inr (keyOf a)"
      using assms by simp_all
    then show ?thesis using Some all pa fz
      by (simp add: first_account_step_def)
  qed
qed

text \<open>
  C7, as the code has it. Let every account of the pool parse (id and key) and have its
  balance query answered (\<open>live\<close>). The resolver of \<^verbatim>\<open>part_000\<close> binds the first account of
  the pool, in order, whose live hbar balance strictly exceeds the minimum, as operator
  and as \<^verbatim>\<open>firstAccount\<close>; if none does, it fails with the assertion and leaves both as
  they were. The resolver of \<^verbatim>\<open>create-simple-topic.ts\<close> does the same with the balance that
  \<^verbatim>\<open>getHbarBalance\<close> returns: the cached balance where the cache holds an entry younger
  than 5000 ms when the step starts, the live balance otherwise; where no account of the
  pool has such an entry, that is the first account whose live balance exceeds the
  minimum.
\<close>

theorem account_resolver_first_eligible:
  assumes "\<forall>a\<in>set pool. accountIdFromString s (id' a) = Inr (idOf a) \<and>
             privateKeyFromStringED25519 s (privateKey a) = Inr (keyOf a) \<and>
             accountBalanceQuery s (idOf a) = Inr (live a) \<and>
             accountBalanceQuery s (id' a) = Inr (live a)"
  shows "(case find (\<lambda>a. hbars (live a) > m) pool of
            Some a \<Rightarrow>
              fst (hedera_account_step s m pool w) = Inr () \<and>
              token_operator (snd (hedera_account_step s m pool w)) = Some (idOf a, keyOf a) \<and>
              token_firstAccount (snd (hedera_account_step s m pool w)) = Some a
          | None \<Rightarrow>
              fst (hedera_account_step s m pool w) = Inl (AssertionError (NoAccountInConfig m)) \<and>
              token_operator (snd (hedera_account_step s m pool w)) = token_operator w \<and>
              token_firstAccount (snd (hedera_account_step s m pool w)) = token_firstAccount w)
         \<and> (case find (\<lambda>a. (case cached_balance now w a of Some b \<Rightarrow> b | None \<Rightarrow> hbars (live a)) > m) pool of
            Some a \<Rightarrow>
              fst (first_account_step s now now' pool m w) = Inr () \<and>
              operator (snd (first_account_step s now now' pool m w)) = Some (idOf a, keyOf a) \<and>
              firstAccount (snd (first_account_step s now now' pool m w)) = Some a
          | None \<Rightarrow>
              fst (first_account_step s now now' pool m w) = Inl (AssertionError (NoConfiguredAccount m)) \<and>
              operator (snd (first_account_step s now now' pool m w)) = operator w \<and>
              firstAccount (snd (first_account_step s now now' pool m w)) = firstAccount w)
         \<and> ((\<forall>a\<in>set pool. cached_balance now w a = None) \<longrightarrow>
              find (\<lambda>a. (case cached_balance now w a of Some b \<Rightarrow> b | None \<Rightarrow> hbars (live a)) > m) pool
              = find (\<lambda>a. hbars (live a) > m) pool)"
proof (intro conjI impI)
  have h1: "\<forall>a\<in>set pool. accountIdFromString s (id' a) = Inr (idOf a) \<and>
             privateKeyFromStringED25519 s (privateKey a) = Inr (keyOf a) \<and>
             accountBalanceQuery s (id' a) = Inr (live a)"
    using assms by simp
  show "(case find (\<lambda>a. hbars (live a) > m) pool of
            Some a \<Rightarrow>
              fst (hedera_account_step s m pool w) = Inr () \<and>
              token_operator (snd (hedera_account_step s m pool w)) = Some (idOf a, keyOf a) \<and>
              token_firstAccount (snd (hedera_account_step s m pool w)) = Some a
          | None \<Rightarrow>
              fst (hedera_account_step s m pool w) = Inl (AssertionError (NoAccountInConfig m)) \<and>
              token_operator (snd (hedera_account_step s m pool w)) = token_operator w \<and>
              token_firstAccount (snd (hedera_account_step s m pool w)) = token_firstAccount w)"
    by (rule hedera_account_step_ok [OF h1])
next
  have h2: "\<forall>a\<in>set pool. accountIdFromString s (id' a) = Inr (idOf a) \<and>
             privateKeyFromStringED25519 s (privateKey a) = Inr (keyOf a) \<and>
             accountBalanceQuery s (idOf a) = Inr (live a)"
    using assms by simp
  show "(case find (\<lambda>a. (case cached_balance now w a of Some b \<Rightarrow> b | None \<Rightarrow> hbars (live a)) > m) pool of
            Some a \<Rightarrow>
              fst (first_account_step s now now' pool m w) = Inr () \<and>
              operator (snd (first_account_step s now now' pool m w)) = Some (idOf a, keyOf a) \<and>
              firstAccount (snd (first_account_step s now now' pool m w)) = Some a
          | None \<Rightarrow>
              fst (first_account_step s now now' pool m w) = Inl (AssertionError (NoConfiguredAccount m)) \<and>
              operator (snd (first_account_step s now now' pool m w)) = operator w \<and>
              firstAccount (snd (first_account_step s now now' pool m w)) = firstAccount w)"
    by (rule first_account_step_ok [OF h2])
next
  assume "\<forall>a\<in>set pool. cached_balance now w a = None"
  then show "find (\<lambda>a. (case cached_balance now w a of Some b \<Rightarrow> b | None \<Rightarrow> hbars (live a)) > m) pool
              = find (\<lambda>a. hbars (live a) > m) pool"
    by (intro find_cong) simp_all
qed

lemma example_pool_ok:
  "\<forall>a\<in>set [alice, bob]. accountIdFromString example_sdk (id' a) = Inr (id' a) \<and>
       privateKeyFromStringED25519 example_sdk (privateKey a) = Inr (privateKey a) \<and>
       accountBalanceQuery example_sdk (id' a) = Inr (example_live a) \<and>
       accountBalanceQuery example_sdk (id' a) = Inr (example_live a)"
  by (simp add: example_sdk_def example_live_def alice_def bob_def)

text \<open>Witness of C7: the pool is \<open>0.0.1001\<close> (live 5 hbar) then \<open>0.0.1002\<close> (live 50 hbar), the
  minimum is 10 and the cache is empty: both resolvers bind \<open>0.0.1002\<close>.\<close>

theorem account_resolver_first_eligible_witness:
  "fst (hedera_account_step example_sdk 10 [alice, bob] initial_world) = Inr ()
   \<and> token_operator (snd (hedera_account_step example_sdk 10 [alice, bob] initial_world)) =
       Some (''0.0.1002'', ''key-b'')
   \<and> token_firstAccount (snd (hedera_account_step example_sdk 10 [alice, bob] initial_world)) = Some bob
   \<and> fst (first_account_step example_sdk 1000 (\<lambda>a. 1001) [alice, bob] 10 initial_world) = Inr ()
   \<and> operator (snd (first_account_step example_sdk 1000 (\<lambda>a. 1001) [alice, bob] 10 initial_world)) =
       Some (''0.0.1002'', ''key-b'')
   \<and> firstAccount (snd (first_account_step example_sdk 1000 (\<lambda>a. 1001) [alice, bob] 10 initial_world)) =
       Some bob"
proof -
  note th = account_resolver_first_eligible [OF example_pool_ok, of 10 initial_world 1000 "\<lambda>a. 1001"]
  have f: "find (\<lambda>a. hbars (example_live a) > 10) [alice, bob] = Some bob"
    by (simp add: example_live_def alice_def bob_def)
  have c: "\<forall>a\<in>set [alice, bob]. cached_balance 1000 initial_world a = None"
    by (simp add: cached_balance_def initial_world_def)
  have f': "find (\<lambda>a. (case cached_balance 1000 initial_world a of Some b \<Rightarrow> b
                        | None \<Rightarrow> hbars (example_live a)) > 10) [alice, bob] = Some bob"
    using th [THEN conjunct2, THEN conjunct2] c f by (simp only:)
  have b: "id' bob = ''0.0.1002''" "privateKey bob = ''key-b''"
    by (simp_all add: bob_def)
  have r1: "fst (hedera_account_step example_sdk 10 [alice, bob] initial_world) = Inr ()
      \<and> token_operator (snd (hedera_account_step example_sdk 10 [alice, bob] initial_world)) =
          Some (id' bob, privateKey bob)
      \<and> token_firstAccount (snd (hedera_account_step example_sdk 10 [alice, bob] initial_world)) = Some bob"
    using th [THEN conjunct1] by (simp only: f option.case)
  have r2: "fst (first_account_step example_sdk 1000 (\<lambda>a. 1001) [alice, bob] 10 initial_world) = Inr ()
      \<and> operator (snd (first_account_step example_sdk 1000 (\<lambda>a. 1001) [alice, bob] 10 initial_world)) =
          Some (id' bob, privateKey bob)
      \<and> firstAccount (snd (first_account_step example_sdk 1000 (\<lambda>a. 1001) [alice, bob] 10 initial_world)) =
          Some bob"
    using th [THEN conjunct2, THEN conjunct1] by (simp only: f' option.case)
  show ?thesis using r1 r2 by (simp only: b simp_thms)
qed

lemma first_account_step_first_run:
  "first_account_step rich_sdk 0 (\<lambda>a. 1) [alice, bob] 10 initial_world =
     (Inr (),
      initial_world\<lparr>balanceQueries := [''0.0.1001'', ''0.0.1002''],
        balanceCache := [''0.0.1001'' \<mapsto> \<lparr>balance = 100, timestamp = 1\<rparr>,
                         ''0.0.1002'' \<mapsto> \<lparr>balance = 100, timestamp = 1\<rparr>],
        operator := Some (''0.0.1001'', ''key-a''), firstAccount := Some alice\<rparr>)"
  by (simp add: first_account_step_def cached_balance_def getHbarBalance_query_def
      initial_world_def rich_sdk_def example_sdk_def alice_def bob_def Let_def)

text \<open>Counterexample to C7 as stated. The step of \<^verbatim>\<open>create-simple-topic.ts\<close> runs twice, one
  second apart, with minimum 10 on the pool \<open>0.0.1001\<close>, \<open>0.0.1002\<close>. At the first run both
  accounts hold 100 hbar, which the cache keeps. At the second run the live balance of
  \<open>0.0.1001\<close> is 5 and that of \<open>0.0.1002\<close> is 50: the step sends no query and binds
  \<open>0.0.1001\<close>, whose live balance does not exceed 10, and not \<open>0.0.1002\<close>, the first account
  whose live balance does.\<close>

theorem first_account_step_binds_cached_balance:
  "fst (first_account_step example_sdk 1000 (\<lambda>a. 1001) [alice, bob] 10
         (snd (first_account_step rich_sdk 0 (\<lambda>a. 1) [alice, bob] 10 initial_world))) = Inr ()
   \<and> firstAccount (snd (first_account_step example_sdk 1000 (\<lambda>a. 1001) [alice, bob] 10
         (snd (first_account_step rich_sdk 0 (\<lambda>a. 1) [alice, bob] 10 initial_world)))) = Some alice
   \<and> operator (snd (first_account_step example_sdk 1000 (\<lambda>a. 1001) [alice, bob] 10
         (snd (first_account_step rich_sdk 0 (\<lambda>a. 1) [alice, bob] 10 initial_world)))) =
       Some (''0.0.1001'', ''key-a'')
   \<and> balanceQueries (snd (first_account_step example_sdk 1000 (\<lambda>a. 1001) [alice, bob] 10
         (snd (first_account_step rich_sdk 0 (\<lambda>a. 1) [alice, bob] 10 initial_world)))) =
       [''0.0.1001'', ''0.0.1002'']
   \<and> accountBalanceQuery example_sdk (id' alice) = Inr \<lparr>hbars = 5, token_map = Some [''0.0.77'' \<mapsto> 7]\<rparr>
   \<and> accountBalanceQuery example_sdk (id' bob) = Inr \<lparr>hbars = 50, token_map = None\<rparr>
   \<and> \<not> (5 :: real) > 10"
  unfolding first_account_step_first_run
  by (simp add: first_account_step_def cached_balance_def getHbarBalance_query_def
      initial_world_def example_sdk_def alice_def bob_def CACHE_TTL_def Let_def)

section \<open>Created resources: properties\<close>

text \<open>
  C8, as the code has it. Each creation path of \<^verbatim>\<open>create-simple-topic.ts\<close> appends the
  identifier of what it created to \<^verbatim>\<open>context.createdResources\<close> when it creates it:
  \<^verbatim>\<open>createAccountWithHbar\<close> the id of the account it returns, \<^verbatim>\<open>createTopic\<close> the topic id it
  returns, the threshold-key step the topic id it stores in \<^verbatim>\<open>context.topicId\<close>; each adds
  exactly this one entry, at the end of its list, and leaves the other list alone.
  \<^verbatim>\<open>accountWithHBar\<close> of \<^verbatim>\<open>part_000\<close> leaves the whole module state as it is, whatever it
  creates: the accounts it creates are not tracked.
\<close>

theorem created_resources_tracked:
  "(createAccountWithHbar s hbarAmount w = (Inr account, w') \<longrightarrow>
      accounts (createdResources w') = accounts (createdResources w) @ [Some (id' account)] \<and>
      topics (createdResources w') = topics (createdResources w))
   \<and> (createTopic s memo sk w = (Inr t, w') \<longrightarrow>
      topics (createdResources w') = topics (createdResources w) @ [t] \<and>
      accounts (createdResources w') = accounts (createdResources w))
   \<and> (threshold_topic_step s memo w = (Inr (), w') \<longrightarrow>
      context_topicId w' \<noteq> None \<and>
      topics (createdResources w') = topics (createdResources w) @ [context_topicId w'] \<and>
      accounts (createdResources w') = accounts (createdResources w))
   \<and> snd (accountWithHBar s hbarAmount w) = w"
proof (intro conjI impI)
  assume "createAccountWithHbar s hbarAmount w = (Inr account, w')"
  then show "accounts (createdResources w') = accounts (createdResources w) @ [Some (id' account)]"
    and "topics (createdResources w') = topics (createdResources w)"
    by (auto simp add: createAccountWithHbar_def executeTransaction_def push_account_def Let_def
        split: sum.splits option.splits prod.splits)
next
  assume "createTopic s memo sk w = (Inr t, w')"
  then show "topics (createdResources w') = topics (createdResources w) @ [t]"
    and "accounts (createdResources w') = accounts (createdResources w)"
    by (auto simp add: createTopic_def executeTransaction_def push_topic_def
        split: sum.splits option.splits prod.splits key.splits)
next
  assume "threshold_topic_step s memo w = (Inr (), w')"
  then show "context_topicId w' \<noteq> None"
    and "topics (createdResources w') = topics (createdResources w) @ [context_topicId w']"
    and "accounts (createdResources w') = accounts (createdResources w)"
    by (auto simp add: threshold_topic_step_def executeTransaction_def push_topic_def Let_def
        split: sum.splits option.splits prod.splits)
next
  show "snd (accountWithHBar s hbarAmount w) = w"
    by (simp add: accountWithHBar_def Let_def split: sum.splits option.splits)
qed

lemma createAccountWithHbar_example:
  "createAccountWithHbar example_sdk 10 initial_world =
     (Inr \<lparr>id' = ''0.0.5005'', privateKey = ''fresh-key''\<rparr>,
      initial_world\<lparr>createdResources := \<lparr>topics = [], accounts = [Some ''0.0.5005'']\<rparr>\<rparr>)"
  by (simp add: createAccountWithHbar_def executeTransaction_def push_account_def example_sdk_def
      initial_world_def new_transaction_def)

lemma createTopic_example:
  "createTopic example_sdk ''memo'' (Some (PrivateKey ''key-a'')) initial_world =
     (Inr (Some ''0.0.6006''),
      initial_world\<lparr>createdResources := \<lparr>topics = [Some ''0.0.6006''], accounts = []\<rparr>\<rparr>)"
  by (simp add: createTopic_def executeTransaction_def push_topic_def example_sdk_def
      initial_world_def new_transaction_def)

lemma threshold_topic_step_example:
  "threshold_topic_step example_sdk ''memo'' threshold_world =
     (Inr (),
      threshold_world\<lparr>context_topicId := Some ''0.0.6006'',
        createdResources := \<lparr>topics = [Some ''0.0.6006''], accounts = []\<rparr>,
        console := [TopicCreatedWithThresholdKey (Some ''0.0.6006'')]\<rparr>)"
  by (simp add: threshold_topic_step_def executeTransaction_def push_topic_def example_sdk_def
      threshold_world_def initial_world_def new_transaction_def bob_def Let_def)

text \<open>Witness of C8: on a fresh module state the three paths of
  \<^verbatim>\<open>create-simple-topic.ts\<close> succeed and leave the created id in the set.\<close>

theorem created_resources_tracked_witness:
  "accounts (createdResources (snd (createAccountWithHbar example_sdk 10 initial_world))) =
     [Some ''0.0.5005'']
   \<and> topics (createdResources
        (snd (createTopic example_sdk ''memo'' (Some (PrivateKey ''key-a'')) initial_world))) =
     [Some ''0.0.6006'']
   \<and> topics (createdResources (snd (threshold_topic_step example_sdk ''memo'' threshold_world))) =
     [Some ''0.0.6006'']
   \<and> snd (accountWithHBar example_sdk 0 initial_world) = initial_world"
proof (intro conjI)
  have e: "accounts (createdResources initial_world) = []" "topics (createdResources initial_world) = []"
    "topics (createdResources threshold_world) = []"
    by (simp_all add: initial_world_def threshold_world_def)
  show "accounts (createdResources (snd (createAccountWithHbar example_sdk 10 initial_world))) =
     [Some ''0.0.5005'']"
    using created_resources_tracked [of example_sdk 10 initial_world
        "\<lparr>id' = ''0.0.5005'', privateKey = ''fresh-key''\<rparr>"
        "snd (createAccountWithHbar example_sdk 10 initial_world)"]
      createAccountWithHbar_example e
    by simp
  show "topics (createdResources
        (snd (createTopic example_sdk ''memo'' (Some (PrivateKey ''key-a'')) initial_world))) =
     [Some ''0.0.6006'']"
    using created_resources_tracked [of example_sdk _ initial_world _
        "snd (createTopic example_sdk ''memo'' (Some (PrivateKey ''key-a'')) initial_world)"
        "''memo''" "Some (PrivateKey ''key-a'')" "Some ''0.0.6006''"]
      createTopic_example e
    by simp
  show "topics (createdResources (snd (threshold_topic_step example_sdk ''memo'' threshold_world))) =
     [Some ''0.0.6006'']"
    using created_resources_tracked [of example_sdk _ threshold_world _
        "snd (threshold_topic_step example_sdk ''memo'' threshold_world)" "''memo''"]
      threshold_topic_step_example e
    by simp
  show "snd (accountWithHBar example_sdk 0 initial_world) = initial_world"
    using created_resources_tracked [of example_sdk 0 initial_world] by simp
qed

text \<open>Counterexample to C8 as stated: \<^verbatim>\<open>accountWithHBar\<close> creates the account \<open>0.0.5005\<close> and
  returns it, and the set of created accounts is still empty.\<close>

theorem accountWithHBar_untracked:
  "fst (accountWithHBar example_sdk 0 initial_world) =
     Inr \<lparr>id' = ''0.0.5005'', privateKey = ''fresh-key''\<rparr>
   \<and> accounts (createdResources (snd (accountWithHBar example_sdk 0 initial_world))) = []
   \<and> Some ''0.0.5005'' \<notin> set (accounts (createdResources (snd (accountWithHBar example_sdk 0 initial_world))))"
  by (simp add: accountWithHBar_def example_sdk_def initial_world_def new_transaction_def)

section \<open>Minting beyond the supply: properties\<close>

text \<open>
  C6. The step \<^verbatim>\<open>An attempt to mint tokens fails\<close> mints \<^verbatim>\<open>tokenSupply + 100\<close>, that is more
  than the maximum supply. It passes exactly when \<^verbatim>\<open>mintTokens\<close> throws a
  \<^verbatim>\<open>ReceiptStatusError\<close> whose status code is 236; any error that is not a
  \<^verbatim>\<open>ReceiptStatusError\<close> is logged and thrown again as it is; a \<^verbatim>\<open>ReceiptStatusError\<close> with
  another code fails the assertion on the code. \<^verbatim>\<open>mintTokens\<close> itself passes the error of
  the receipt on unchanged, so the ledger's typed rejection reaches the step with its
  code.
\<close>

theorem mint_fails_step_status_236:
  "(fst (mint_fails_step s w) = Inr () \<longleftrightarrow>
      mintTokens s (token_tokenSupply w + 100) w = Inl (ReceiptStatusError 236))
   \<and> (mintTokens s (token_tokenSupply w + 100) w = Inl e \<and> (\<forall>c. e \<noteq> ReceiptStatusError c) \<longrightarrow>
        mint_fails_step s w = (Inl e, w\<lparr>console := console w @ [UnexpectedError e]\<rparr>))
   \<and> (mintTokens s (token_tokenSupply w + 100) w = Inl (ReceiptStatusError c) \<and> c \<noteq> 236 \<longrightarrow>
        fst (mint_fails_step s w) = Inl (AssertionError (StrictEqual (Some c) 236)))
   \<and> (freezeWith s (new_transaction (TokenMintTransaction (token_tokenId w) amount)) = Inr mintTx
        \<and> token_firstAccount w = Some first
        \<and> privateKeyFromStringED25519 s (privateKey first) = Inr k
        \<and> sign s k mintTx = Inr signedTx
        \<and> execute s signedTx = Inr submitResp
        \<and> getReceipt s submitResp = Inl e' \<longrightarrow>
        mintTokens s amount w = Inl e')"
proof (intro conjI impI)
  show "fst (mint_fails_step s w) = Inr () \<longleftrightarrow>
      mintTokens s (token_tokenSupply w + 100) w = Inl (ReceiptStatusError 236)"
    by (simp add: mint_fails_step_def split: sum.splits error.splits)
next
  assume "mintTokens s (token_tokenSupply w + 100) w = Inl e \<and> (\<forall>c. e \<noteq> ReceiptStatusError c)"
  then show "mint_fails_step s w = (Inl e, w\<lparr>console := console w @ [UnexpectedError e]\<rparr>)"
    by (cases e) (simp_all add: mint_fails_step_def)
next
  assume "mintTokens s (token_tokenSupply w + 100) w = Inl (ReceiptStatusError c) \<and> c \<noteq> 236"
  then show "fst (mint_fails_step s w) = Inl (AssertionError (StrictEqual (Some c) 236))"
    by (simp add: mint_fails_step_def)
next
  assume "freezeWith s (new_transaction (TokenMintTransaction (token_tokenId w) amount)) = Inr mintTx
        \<and> token_firstAccount w = Some first
        \<and> privateKeyFromStringED25519 s (privateKey first) = Inr k
        \<and> sign s k mintTx = Inr signedTx
        \<and> execute s signedTx = Inr submitResp
        \<and> getReceipt s submitResp = Inl e'"
  then show "mintTokens s amount w = Inl e'"
    by (simp add: mintTokens_def)
qed

lemma mintTokens_rejected:
  "mintTokens rejecting_sdk 1100 token_world = Inl (ReceiptStatusError 236)"
  by (simp add: mintTokens_def rejecting_sdk_def example_sdk_def token_world_def
      initial_world_def alice_def new_transaction_def)

lemma mintTokens_unavailable:
  "mintTokens failing_sdk 1100 token_world = Inl (Error ''UNAVAILABLE'')"
  by (simp add: mintTokens_def failing_sdk_def example_sdk_def token_world_def
      initial_world_def alice_def new_transaction_def)

text \<open>Witness of C6: with a maximum supply of 1000 the step mints 1100. On a ledger that
  rejects the receipt with code 236 the step passes; when \<^verbatim>\<open>execute\<close> fails with a plain
  error, that error is thrown again and logged.\<close>

theorem mint_fails_step_status_236_witness:
  "token_tokenSupply token_world + 100 = 1100
   \<and> mintTokens rejecting_sdk 1100 token_world = Inl (ReceiptStatusError 236)
   \<and> fst (mint_fails_step rejecting_sdk token_world) = Inr ()
   \<and> mint_fails_step failing_sdk token_world =
       (Inl (Error ''UNAVAILABLE''),
        token_world\<lparr>console := console token_world @ [UnexpectedError (Error ''UNAVAILABLE'')]\<rparr>)"
proof -
  have a: "token_tokenSupply token_world + 100 = 1100"
    by (simp add: token_world_def initial_world_def)
  have p: "fst (mint_fails_step rejecting_sdk token_world) = Inr ()"
    using mint_fails_step_status_236 [of rejecting_sdk token_world] mintTokens_rejected a
    by simp
  have q: "mint_fails_step failing_sdk token_world =
       (Inl (Error ''UNAVAILABLE''),
        token_world\<lparr>console := console token_world @ [UnexpectedError (Error ''UNAVAILABLE'')]\<rparr>)"
    using mint_fails_step_status_236 [of failing_sdk token_world "Error ''UNAVAILABLE''"]
      mintTokens_unavailable a
    by simp
  show ?thesis using a p q mintTokens_rejected by simp
qed

section \<open>Topic subscription matcher: properties\<close>













text \<open>
  C1. The error handler clears the timer and rejects the wait and nothing else: it never
  calls \<^verbatim>\<open>unsubscribe\<close>, which only the message handler does on a match. When the
  subscription reports an error 100 ms after the call, the wait is rejected with that
  error, the timer is cleared, and the subscription is still subscribed.
\<close>

theorem subscription_error_stays_subscribed:
  "subscribed (on_error e m) = subscribed m
   \<and> subscribeToTopic (\<lambda>c. c) ''hello'' None [(100, SubscriptionError (Error ''UNAVAILABLE''))] =
       \<lparr>wait = Rejected (Error ''UNAVAILABLE''), timer_armed = False, subscribed = True,
        matcher_console = []\<rparr>"
  by (simp add: subscribeToTopic_def timeout_or_default_def subscribed_matcher_def deliver_def
      on_error_def reject_def clearTimeout_def timer_fires_def)

section \<open>Message publisher: properties\<close>

lemma next_stage_settled: "settled st \<Longrightarrow> next_stage s entry st = st"
  by (cases st) (simp_all add: next_stage_def advance_task_def)

lemma settled_next_stage: "settled st \<Longrightarrow> settled (next_stage s entry st)"
  by (simp add: next_stage_settled)

lemma settled_funpow: "settled st \<Longrightarrow> (next_stage s entry ^^ n) st = st"
  by (induction n) (simp_all add: next_stage_settled)

text \<open>One completion changes the stage of its own entry only, and neither the entries
  nor the network.\<close>

lemma flush_step_frame:
  "length (stages (flush_step i f)) = length (stages f)
   \<and> entries (flush_step i f) = entries f \<and> flush_net (flush_step i f) = flush_net f"
  by (simp add: flush_step_def split: prod.splits)

lemma flush_step_stage:
  "j < length (stages f) \<Longrightarrow>
   stages (flush_step i f) ! j =
     (if j = i then next_stage (flush_net f i) (entries f ! i) (stages f ! i) else stages f ! j)"
  by (auto simp add: flush_step_def next_stage_def next_stage_settled [unfolded next_stage_def]
      split: prod.splits)

lemma run_flush_frame:
  "length (stages (run_flush sched f)) = length (stages f)
   \<and> entries (run_flush sched f) = entries f \<and> flush_net (run_flush sched f) = flush_net f"
  by (induction sched arbitrary: f) (simp_all add: flush_step_frame)

text \<open>Under any schedule, the stage of an entry is what its own completions make of its
  own start: the other entries, and whether they fail, do not enter.\<close>

lemma run_flush_stage:
  "j < length (stages f) \<Longrightarrow>
   stages (run_flush sched f) ! j =
     (next_stage (flush_net f j) (entries f ! j) ^^ count_list sched j) (stages f ! j)"
proof (induction sched arbitrary: f)
  case Nil
  then show ?case by simp
next
  case (Cons i sched)
  let ?f' = "flush_step i f"
  have fr: "length (stages ?f') = length (stages f)" "entries ?f' = entries f"
    "flush_net ?f' = flush_net f"
    using flush_step_frame [of i f] by simp_all
  have ih: "stages (run_flush sched ?f') ! j =
      (next_stage (flush_net f j) (entries f ! j) ^^ count_list sched j) (stages ?f' ! j)"
    using Cons.IH [of ?f'] Cons.prems fr by simp
  show ?case
  proof (cases "j = i")
    case True
    then show ?thesis
      using ih flush_step_stage [of j f i] Cons.prems by (simp add: funpow_swap1)
  next
    case False
    then show ?thesis
      using ih flush_step_stage [of j f i] Cons.prems by simp
  qed
qed

lemma start_flush_frame:
  "length (stages (start_flush net batch)) = length batch
   \<and> entries (start_flush net batch) = batch \<and> flush_net (start_flush net batch) = net"
  by (simp add: start_flush_def Let_def)

lemma start_flush_stage:
  "i < length batch \<Longrightarrow> stages (start_flush net batch) ! i = start_task (net i) (batch ! i)"
  by (simp add: start_flush_def Let_def)

text \<open>Three completions settle any entry.\<close>

lemma settled_after_three: "settled ((next_stage s entry ^^ 3) st)"
  by (cases st)
    (auto simp add: numeral_3_eq_3 next_stage_def advance_task_def
      split: option.splits sum.splits)

lemma settled_after: "3 \<le> n \<Longrightarrow> settled ((next_stage s entry ^^ n) st)"
proof -
  assume "3 \<le> n"
  then obtain k where n: "n = k + 3" by (metis add.commute le_Suc_ex)
  have "(next_stage s entry ^^ n) st = (next_stage s entry ^^ k) ((next_stage s entry ^^ 3) st)"
    unfolding n by (simp only: funpow_add comp_def)
  then show ?thesis
    using settled_after_three [of s entry st] settled_funpow by simp
qed

text \<open>An entry whose own calls succeed ends receipted.\<close>

lemma receipted_when_own_calls_succeed:
  assumes "freezeWith s (new_transaction
             (TopicMessageSubmitTransaction (message_topicId entry) (message entry))) = Inr tx0"
    and "(case submitKey entry of Some k \<Rightarrow> sign s k tx0 | None \<Rightarrow> Inr tx0) = Inr tx1"
    and "execute s tx1 = Inr response"
    and "getReceipt s response = Inr r"
    and "3 \<le> n"
  shows "(next_stage s entry ^^ n) (start_task s entry) = Receipted r"
proof -
  have three: "(next_stage s entry ^^ 3) (start_task s entry) = Receipted r"
    using assms(1-4)
    by (cases "submitKey entry")
      (simp_all add: numeral_3_eq_3 start_task_def next_stage_def advance_task_def)
  obtain k where n: "n = k + 3" using assms(5) by (metis add.commute le_Suc_ex)
  have "(next_stage s entry ^^ n) (start_task s entry) =
      (next_stage s entry ^^ k) ((next_stage s entry ^^ 3) (start_task s entry))"
    unfolding n by (simp only: funpow_add comp_def)
  then show ?thesis using three settled_funpow [where st = "Receipted r"] by simp
qed

text \<open>\<^verbatim>\<open>Promise.all\<close>, and with it \<^verbatim>\<open>flushMessages\<close>, rejects as soon as one entry fails,
  and once settled it does not change.\<close>

lemma flush_step_rejects:
  "all_promise f = Pending \<Longrightarrow> i < length (stages f) \<Longrightarrow> \<not> settled (stages f ! i) \<Longrightarrow>
   next_stage (flush_net f i) (entries f ! i) (stages f ! i) = Failed e \<Longrightarrow>
   all_promise (flush_step i f) = Rejected e"
proof -
  assume a: "all_promise f = Pending" "i < length (stages f)" "\<not> settled (stages f ! i)"
    "next_stage (flush_net f i) (entries f ! i) (stages f ! i) = Failed e"
  obtain st lines where adv: "advance_task (flush_net f i) (entries f ! i) (stages f ! i) = (st, lines)"
    by (cases "advance_task (flush_net f i) (entries f ! i) (stages f ! i)")
  then have "st = Failed e" using a(4) by (simp add: next_stage_def)
  then show ?thesis using a adv by (simp add: flush_step_def)
qed

lemma flush_step_all_settled:
  "all_promise f \<noteq> Pending \<Longrightarrow> all_promise (flush_step i f) = all_promise f"
  by (simp add: flush_step_def split: prod.splits)

lemma run_flush_all_settled:
  "all_promise f \<noteq> Pending \<Longrightarrow> all_promise (run_flush sched f) = all_promise f"
  by (induction sched arbitrary: f) (simp_all add: flush_step_all_settled)

text \<open>
  C3, as the code has it. A flush starts every entry of the snapshot, and under every
  schedule of completions the stage of entry \<open>i\<close> is the result of its own completions on
  its own start: a failure of another entry neither blocks nor cancels it. After three
  of its completions the entry is settled, and if its own freeze, signature (when it has
  a key), submission and receipt succeed it is receipted, however the other entries
  fare. The promise of \<^verbatim>\<open>Promise.all\<close>, which is what \<^verbatim>\<open>flushMessages\<close> awaits, rejects at
  the first failure of an entry, and stays rejected while the other entries go on.
\<close>

theorem flush_entries_independent:
  "length (stages (run_flush sched (start_flush net batch))) = length batch
   \<and> (i < length batch \<longrightarrow>
        stages (run_flush sched (start_flush net batch)) ! i =
          (next_stage (net i) (batch ! i) ^^ count_list sched i) (start_task (net i) (batch ! i)))
   \<and> (i < length batch \<and> 3 \<le> count_list sched i \<longrightarrow>
        settled (stages (run_flush sched (start_flush net batch)) ! i))
   \<and> (i < length batch \<and> 3 \<le> count_list sched i
        \<and> freezeWith (net i) (new_transaction
             (TopicMessageSubmitTransaction (message_topicId (batch ! i)) (message (batch ! i)))) = Inr tx0
        \<and> (case submitKey (batch ! i) of Some k \<Rightarrow> sign (net i) k tx0 | None \<Rightarrow> Inr tx0) = Inr tx1
        \<and> execute (net i) tx1 = Inr response
        \<and> getReceipt (net i) response = Inr r \<longrightarrow>
        stages (run_flush sched (start_flush net batch)) ! i = Receipted r)
   \<and> (all_promise f = Pending \<and> j < length (stages f) \<and> \<not> settled (stages f ! j)
        \<and> next_stage (flush_net f j) (entries f ! j) (stages f ! j) = Failed e \<longrightarrow>
        all_promise (flush_step j f) = Rejected e
        \<and> all_promise (run_flush sched (flush_step j f)) = Rejected e)"
proof -
  let ?f = "start_flush net batch"
  have len: "length (stages (run_flush sched ?f)) = length batch"
    using run_flush_frame [of sched ?f] start_flush_frame [of net batch] by simp
  have st: "stages (run_flush sched ?f) ! i =
          (next_stage (net i) (batch ! i) ^^ count_list sched i) (start_task (net i) (batch ! i))"
    if "i < length batch"
    using that run_flush_stage [of i ?f sched] start_flush_frame [of net batch]
      start_flush_stage [of i batch net] by simp
  have se: "settled (stages (run_flush sched ?f) ! i)"
    if "i < length batch \<and> 3 \<le> count_list sched i"
    using that st settled_after [of "count_list sched i" "net i" "batch ! i"] by simp
  have re: "stages (run_flush sched ?f) ! i = Receipted r"
    if "i < length batch \<and> 3 \<le> count_list sched i
        \<and> freezeWith (net i) (new_transaction
             (TopicMessageSubmitTransaction (message_topicId (batch ! i)) (message (batch ! i)))) = Inr tx0
        \<and> (case submitKey (batch ! i) of Some k \<Rightarrow> sign (net i) k tx0 | None \<Rightarrow> Inr tx0) = Inr tx1
        \<and> execute (net i) tx1 = Inr response
        \<and> getReceipt (net i) response = Inr r"
    using that st receipted_when_own_calls_succeed [of "net i" "batch ! i" tx0 tx1 response r
        "count_list sched i"] by simp
  have rj: "all_promise (flush_step j f) = Rejected e
        \<and> all_promise (run_flush sched (flush_step j f)) = Rejected e"
    if "all_promise f = Pending \<and> j < length (stages f) \<and> \<not> settled (stages f ! j)
        \<and> next_stage (flush_net f j) (entries f ! j) (stages f ! j) = Failed e"
  proof -
    have "all_promise (flush_step j f) = Rejected e"
      using that flush_step_rejects [of f j e] by simp
    then show ?thesis
      using run_flush_all_settled [of "flush_step j f" sched] by simp
  qed
  show ?thesis using len st se re rj by blast
qed

lemma first_fails_start:
  "start_flush first_fails [world_msg, hello] =
     \<lparr>entries = [world_msg, hello], flush_net = first_fails,
      stages = [AwaitingExecute \<lparr>body = TopicMessageSubmitTransaction ''0.0.6006'' ''world'',
                                 frozen = True, signatures = []\<rparr>,
                AwaitingSign \<lparr>body = TopicMessageSubmitTransaction ''0.0.6006'' ''hello'',
                              frozen = True, signatures = []\<rparr>],
      all_promise = Pending, flush_console = []\<rparr>"
  by (simp add: start_flush_def start_task_def first_fails_def failing_sdk_def example_sdk_def
      world_msg_def hello_def new_transaction_def Let_def upt_rec)

lemma first_fails_first_step:
  "flush_step 0 (start_flush first_fails [world_msg, hello]) =
     \<lparr>entries = [world_msg, hello], flush_net = first_fails,
      stages = [Failed (Error ''UNAVAILABLE''),
                AwaitingSign \<lparr>body = TopicMessageSubmitTransaction ''0.0.6006'' ''hello'',
                              frozen = True, signatures = []\<rparr>],
      all_promise = Rejected (Error ''UNAVAILABLE''),
      flush_console = [TransactionFailed (Error ''UNAVAILABLE'')]\<rparr>"
  unfolding first_fails_start
  by (simp add: flush_step_def advance_task_def first_fails_def failing_sdk_def example_sdk_def
      world_msg_def)

text \<open>Witness of C3: the first entry's submission fails, and the second entry, given its
  three completions, is signed, submitted and receipted all the same, while the promise
  of the flush has been rejected since the failure.\<close>

theorem flush_entries_independent_witness:
  "stages (run_flush [0, 1, 1, 1] (start_flush first_fails [world_msg, hello])) ! 0 =
     Failed (Error ''UNAVAILABLE'')
   \<and> stages (run_flush [0, 1, 1, 1] (start_flush first_fails [world_msg, hello])) ! 1 =
     Receipted \<lparr>status = ''SUCCESS'', accountId = Some ''0.0.5005'', topicId = Some ''0.0.6006''\<rparr>
   \<and> all_promise (run_flush [1, 1, 1] (flush_step 0 (start_flush first_fails [world_msg, hello]))) =
     Rejected (Error ''UNAVAILABLE'')"
proof (intro conjI)
  let ?f = "start_flush first_fails [world_msg, hello]"
  have s0: "start_task (first_fails 0) world_msg =
      AwaitingExecute \<lparr>body = TopicMessageSubmitTransaction ''0.0.6006'' ''world'',
                       frozen = True, signatures = []\<rparr>"
    by (simp add: start_task_def first_fails_def failing_sdk_def example_sdk_def world_msg_def
        new_transaction_def)
  have n0: "next_stage (first_fails 0) world_msg
      (AwaitingExecute \<lparr>body = TopicMessageSubmitTransaction ''0.0.6006'' ''world'',
                        frozen = True, signatures = []\<rparr>) = Failed (Error ''UNAVAILABLE'')"
    by (simp add: next_stage_def advance_task_def first_fails_def failing_sdk_def example_sdk_def)
  have c0: "count_list [0, 1, 1, 1] (0::nat) = 1" by simp
  show "stages (run_flush [0, 1, 1, 1] ?f) ! 0 = Failed (Error ''UNAVAILABLE'')"
    using flush_entries_independent [where sched = "[0, 1, 1, 1]" and net = first_fails
        and batch = "[world_msg, hello]" and i = 0, THEN conjunct2, THEN conjunct1] s0 n0 c0
    by (simp del: run_flush.simps count_list.simps)
  have own: "freezeWith (first_fails 1) (new_transaction
        (TopicMessageSubmitTransaction (message_topicId hello) (message hello))) =
        Inr \<lparr>body = TopicMessageSubmitTransaction ''0.0.6006'' ''hello'', frozen = True, signatures = []\<rparr>"
    "(case submitKey hello of
        Some k \<Rightarrow> sign (first_fails 1) k
          \<lparr>body = TopicMessageSubmitTransaction ''0.0.6006'' ''hello'', frozen = True, signatures = []\<rparr>
      | None \<Rightarrow> Inr \<lparr>body = TopicMessageSubmitTransaction ''0.0.6006'' ''hello'', frozen = True,
                      signatures = []\<rparr>) =
        Inr \<lparr>body = TopicMessageSubmitTransaction ''0.0.6006'' ''hello'', frozen = True,
             signatures = [''key-a'']\<rparr>"
    "execute (first_fails 1)
        \<lparr>body = TopicMessageSubmitTransaction ''0.0.6006'' ''hello'', frozen = True,
         signatures = [''key-a'']\<rparr> = Inr ''tx-1''"
    "getReceipt (first_fails 1) ''tx-1'' =
        Inr \<lparr>status = ''SUCCESS'', accountId = Some ''0.0.5005'', topicId = Some ''0.0.6006''\<rparr>"
    by (simp_all add: first_fails_def example_sdk_def hello_def new_transaction_def)
  have c1: "count_list [0, 1, 1, 1] (1::nat) = 3" by simp
  show "stages (run_flush [0, 1, 1, 1] ?f) ! 1 =
     Receipted \<lparr>status = ''SUCCESS'', accountId = Some ''0.0.5005'', topicId = Some ''0.0.6006''\<rparr>"
    using flush_entries_independent [where sched = "[0, 1, 1, 1]" and net = first_fails
        and batch = "[world_msg, hello]" and i = 1
        and ?tx0.0 = "\<lparr>body = TopicMessageSubmitTransaction ''0.0.6006'' ''hello'', frozen = True,
          signatures = []\<rparr>"
        and ?tx1.0 = "\<lparr>body = TopicMessageSubmitTransaction ''0.0.6006'' ''hello'', frozen = True,
          signatures = [''key-a'']\<rparr>"
        and response = "''tx-1''"
        and r = "\<lparr>status = ''SUCCESS'', accountId = Some ''0.0.5005'', topicId = Some ''0.0.6006''\<rparr>",
        THEN conjunct2, THEN conjunct2, THEN conjunct2, THEN conjunct1] own c1
    by (simp del: run_flush.simps count_list.simps)
  have p: "all_promise ?f = Pending" "0 < length (stages ?f)" "\<not> settled (stages ?f ! 0)"
    "next_stage (flush_net ?f 0) (entries ?f ! 0) (stages ?f ! 0) = Failed (Error ''UNAVAILABLE'')"
    unfolding first_fails_start using n0 by simp_all
  show "all_promise (run_flush [1, 1, 1] (flush_step 0 ?f)) = Rejected (Error ''UNAVAILABLE'')"
    using flush_entries_independent [where sched = "[1, 1, 1]" and f = ?f and j = 0
        and e = "Error ''UNAVAILABLE''", THEN conjunct2, THEN conjunct2, THEN conjunct2,
        THEN conjunct2] p
    by blast
qed

text \<open>Counterexample to C3 as stated: once the first entry's submission has failed,
  \<^verbatim>\<open>Promise.all\<close> (and so \<^verbatim>\<open>flushMessages\<close>) is already rejected while the second entry is
  still waiting for its signature: it is neither signed, submitted nor receipted when the
  flush ends.\<close>

theorem flushMessages_rejects_at_first_failure:
  "all_promise (run_flush [0] (start_flush first_fails [world_msg, hello])) =
     Rejected (Error ''UNAVAILABLE'')
   \<and> stages (run_flush [0] (start_flush first_fails [world_msg, hello])) ! 1 =
     AwaitingSign \<lparr>body = TopicMessageSubmitTransaction ''0.0.6006'' ''hello'',
                   frozen = True, signatures = []\<rparr>
   \<and> \<not> settled (stages (run_flush [0] (start_flush first_fails [world_msg, hello])) ! 1)"
  by (simp add: first_fails_first_step)

text \<open>The queue, while the calls stay below the batch size.\<close>

lemma publish_short:
  "length (queued p) + 1 < 5 \<Longrightarrow>
   publish net e p = p\<lparr>arrays := (arrays p)(pendingMessages p := queued p @ [e])\<rparr>"
  by (simp add: publish_def queued_def Let_def)

lemma publish_all_short:
  "length (queued p) + length es < 5 \<Longrightarrow>
   queued (publish_all net es p) = queued p @ es
   \<and> in_flight (publish_all net es p) = in_flight p
   \<and> pendingMessages (publish_all net es p) = pendingMessages p
   \<and> fresh (publish_all net es p) = fresh p
   \<and> (\<forall>a. a \<noteq> pendingMessages p \<longrightarrow> arrays (publish_all net es p) a = arrays p a)"
proof (induction es arbitrary: p)
  case Nil
  then show ?case by simp
next
  case (Cons e es)
  let ?p' = "p\<lparr>arrays := (arrays p)(pendingMessages p := queued p @ [e])\<rparr>"
  have s: "publish net e p = ?p'"
    using Cons.prems by (simp add: publish_short)
  have q: "queued ?p' = queued p @ [e]" by (simp add: queued_def)
  have "length (queued ?p') + length es < 5" using Cons.prems q by simp
  then show ?case using Cons.IH [of ?p'] s q by simp
qed

lemma publish_all_append:
  "publish_all net (xs @ ys) p = publish_all net ys (publish_all net xs p)"
  by (induction xs arbitrary: p) simp_all

lemma flushMessages_result:
  "queued (flushMessages net p) = []
   \<and> in_flight (flushMessages net p) = in_flight p @ [start_flush net (queued p)]
   \<and> arrays (flushMessages net p) (fresh p) = queued p
   \<and> pendingMessages (flushMessages net p) = fresh p + 1
   \<and> fresh (flushMessages net p) = fresh p + 2"
  by (simp add: flushMessages_def queued_def Let_def)

lemma publish_full:
  "5 \<le> length (queued p) + 1 \<Longrightarrow>
   queued (publish net e p) = []
   \<and> in_flight (publish net e p) = in_flight p @ [start_flush net (queued p @ [e])]"
proof -
  assume a: "5 \<le> length (queued p) + 1"
  let ?p1 = "p\<lparr>arrays := (arrays p)(pendingMessages p := arrays p (pendingMessages p) @ [e])\<rparr>"
  have q1: "queued ?p1 = queued p @ [e]" by (simp add: queued_def)
  have "publish net e p = flushMessages net ?p1"
    using a by (simp add: publish_def queued_def Let_def)
  then show ?thesis
    using flushMessages_result [of net ?p1] q1 by simp
qed

text \<open>
  C4. \<^verbatim>\<open>flushMessages\<close> copies the queue into a new array, replaces the queue by a new empty
  array and only then starts the entries of the copy: after the call the queue is empty
  and the flush in flight holds exactly the entries queued before. The copy is an array
  of its own (at the address \<open>fresh p\<close>): a message published afterwards is pushed to the
  new queue, where it stays queued, and changes neither the copy nor the flush in
  flight; the same holds for up to four such messages.
\<close>

theorem flushMessages_snapshot_then_reset:
  "queued (flushMessages net p) = []
   \<and> in_flight (flushMessages net p) = in_flight p @ [start_flush net (queued p)]
   \<and> entries (start_flush net (queued p)) = queued p
   \<and> arrays (flushMessages net p) (fresh p) = queued p
   \<and> queued (publish net' e (flushMessages net p)) = [e]
   \<and> in_flight (publish net' e (flushMessages net p)) = in_flight (flushMessages net p)
   \<and> arrays (publish net' e (flushMessages net p)) (fresh p) = queued p
   \<and> (length es < 5 \<longrightarrow>
        queued (publish_all net' es (flushMessages net p)) = es
        \<and> in_flight (publish_all net' es (flushMessages net p)) = in_flight (flushMessages net p)
        \<and> arrays (publish_all net' es (flushMessages net p)) (fresh p) = queued p)"
proof -
  let ?p' = "flushMessages net p"
  note r = flushMessages_result [of net p]
  have many: "queued (publish_all net' es ?p') = es
        \<and> in_flight (publish_all net' es ?p') = in_flight ?p'
        \<and> arrays (publish_all net' es ?p') (fresh p) = queued p" if "length es < 5" for es
  proof -
    have "length (queued ?p') + length es < 5" using that r by simp
    then show ?thesis
      using publish_all_short [of ?p' es net'] r by simp
  qed
  have one: "queued (publish net' e ?p') = [e]
        \<and> in_flight (publish net' e ?p') = in_flight ?p'
        \<and> arrays (publish net' e ?p') (fresh p) = queued p"
    using many [of "[e]"] by simp
  show ?thesis
    using r one many start_flush_frame [of net "queued p"] by simp
qed

lemma new_MessagePublisher_empty:
  "queued new_MessagePublisher = [] \<and> in_flight new_MessagePublisher = []"
  by (simp add: queued_def new_MessagePublisher_def)

lemma two_queued:
  "queued (publish_all first_fails [world_msg, hello] new_MessagePublisher) = [world_msg, hello]
   \<and> in_flight (publish_all first_fails [world_msg, hello] new_MessagePublisher) = []"
proof -
  have "length (queued new_MessagePublisher) + length [world_msg, hello] < 5"
    using new_MessagePublisher_empty by simp
  then show ?thesis
    using publish_all_short [of new_MessagePublisher "[world_msg, hello]" first_fails]
      new_MessagePublisher_empty
    by (simp del: publish_all.simps)
qed

text \<open>Witness of C4: two messages are queued and flushed; three messages published next
  are in the queue, and the flush in flight still holds the two.\<close>

theorem flushMessages_snapshot_then_reset_witness:
  "queued (publish_all first_fails [hello, hello, world_msg]
      (flushMessages first_fails (publish_all first_fails [world_msg, hello] new_MessagePublisher))) =
     [hello, hello, world_msg]
   \<and> map entries (in_flight (publish_all first_fails [hello, hello, world_msg]
      (flushMessages first_fails (publish_all first_fails [world_msg, hello] new_MessagePublisher)))) =
     [[world_msg, hello]]"
proof -
  let ?p = "publish_all first_fails [world_msg, hello] new_MessagePublisher"
  have l: "length [hello, hello, world_msg] < 5" by simp
  show ?thesis
    using flushMessages_snapshot_then_reset [where net = first_fails and p = ?p
        and net' = first_fails and es = "[hello, hello, world_msg]"]
      two_queued l start_flush_frame [of first_fails "[world_msg, hello]"]
    by (simp del: publish_all.simps)
qed

text \<open>What three completions make of an entry, call by call: the transaction is frozen,
  signed when the entry has a key, executed and its receipt fetched; the entry ends with
  the receipt, or with the error of the first of its calls that fails.\<close>

lemma entry_outcome:
  assumes "3 \<le> n"
  shows "(next_stage s entry ^^ n) (start_task s entry) =
     (case freezeWith s (new_transaction
             (TopicMessageSubmitTransaction (message_topicId entry) (message entry))) of
        Inl e \<Rightarrow> Failed e
      | Inr tx0 \<Rightarrow>
          (case (case submitKey entry of Some k \<Rightarrow> sign s k tx0 | None \<Rightarrow> Inr tx0) of
             Inl e \<Rightarrow> Failed e
           | Inr tx1 \<Rightarrow>
               (case execute s tx1 of
                  Inl e \<Rightarrow> Failed e
                | Inr response \<Rightarrow>
                    (case getReceipt s response of
                       Inl e \<Rightarrow> Failed e
                     | Inr r \<Rightarrow> Receipted r))))"
proof -
  have three: "(next_stage s entry ^^ 3) (start_task s entry) =
     (case freezeWith s (new_transaction
             (TopicMessageSubmitTransaction (message_topicId entry) (message entry))) of
        Inl e \<Rightarrow> Failed e
      | Inr tx0 \<Rightarrow>
          (case (case submitKey entry of Some k \<Rightarrow> sign s k tx0 | None \<Rightarrow> Inr tx0) of
             Inl e \<Rightarrow> Failed e
           | Inr tx1 \<Rightarrow>
               (case execute s tx1 of
                  Inl e \<Rightarrow> Failed e
                | Inr response \<Rightarrow>
                    (case getReceipt s response of
                       Inl e \<Rightarrow> Failed e
                     | Inr r \<Rightarrow> Receipted r))))"
    by (simp add: numeral_3_eq_3 start_task_def next_stage_def advance_task_def
        split: sum.splits option.splits)
  obtain k where n: "n = k + 3" using assms by (metis add.commute le_Suc_ex)
  have "(next_stage s entry ^^ n) (start_task s entry) =
      (next_stage s entry ^^ k) ((next_stage s entry ^^ 3) (start_task s entry))"
    unfolding n by (simp only: funpow_add comp_def)
  also have "\<dots> = (next_stage s entry ^^ 3) (start_task s entry)"
    using settled_funpow [where st = "(next_stage s entry ^^ 3) (start_task s entry)"]
      settled_after_three [of s entry "start_task s entry"] by simp
  finally show ?thesis using three by simp
qed

text \<open>
  C5. A call of \<^verbatim>\<open>publish\<close> that brings the queue to five entries (or more) flushes: it
  leaves no message queued and starts a flush of the whole queue, the new message
  included; a call that leaves the queue below five only appends. So on a new publisher
  four calls leave the four messages queued and start no flush, and five calls leave
  none queued and start one flush of the five. An explicit \<^verbatim>\<open>flushMessages\<close> on a queue of
  four starts a flush of these four entries and leaves none queued, and once each of the
  four has had its three completions all four are settled. Each of the four is
  processed: its transaction is frozen when the flush starts, and after its three
  completions the entry has been signed (when it has a key), executed and its receipt
  fetched, ending with that receipt, or with the error of the first of these calls that
  failed.
\<close>

theorem publish_batches_of_five:
  "(5 \<le> length (queued p) + 1 \<longrightarrow>
      queued (publish net e p) = []
      \<and> in_flight (publish net e p) = in_flight p @ [start_flush net (queued p @ [e])])
   \<and> (length (queued p) + 1 < 5 \<longrightarrow>
      queued (publish net e p) = queued p @ [e] \<and> in_flight (publish net e p) = in_flight p)
   \<and> (length es = 4 \<longrightarrow>
      queued (publish_all net es new_MessagePublisher) = es
      \<and> in_flight (publish_all net es new_MessagePublisher) = [])
   \<and> (length es = 5 \<longrightarrow>
      queued (publish_all net es new_MessagePublisher) = []
      \<and> in_flight (publish_all net es new_MessagePublisher) = [start_flush net es])
   \<and> (length (queued p) = 4 \<longrightarrow>
      queued (flushMessages net p) = []
      \<and> in_flight (flushMessages net p) = in_flight p @ [start_flush net (queued p)]
      \<and> entries (start_flush net (queued p)) = queued p
      \<and> length (stages (start_flush net (queued p))) = 4)
   \<and> (length (queued p) = 4 \<and> (\<forall>i<4. 3 \<le> count_list sched i) \<longrightarrow>
      length (stages (run_flush sched (start_flush net (queued p)))) = 4
      \<and> list_all settled (stages (run_flush sched (start_flush net (queued p)))))
   \<and> (length (queued p) = 4 \<and> i < 4 \<longrightarrow>
      stages (start_flush net (queued p)) ! i =
        (case freezeWith (net i) (new_transaction
                (TopicMessageSubmitTransaction (message_topicId (queued p ! i))
                   (message (queued p ! i)))) of
           Inl e \<Rightarrow> Failed e
         | Inr tx0 \<Rightarrow>
             (case submitKey (queued p ! i) of
                Some k \<Rightarrow> AwaitingSign tx0
              | None \<Rightarrow> AwaitingExecute tx0)))
   \<and> (length (queued p) = 4 \<and> i < 4 \<and> 3 \<le> count_list sched i \<longrightarrow>
      stages (run_flush sched (start_flush net (queued p))) ! i =
        (case freezeWith (net i) (new_transaction
                (TopicMessageSubmitTransaction (message_topicId (queued p ! i))
                   (message (queued p ! i)))) of
           Inl e \<Rightarrow> Failed e
         | Inr tx0 \<Rightarrow>
             (case (case submitKey (queued p ! i) of
                      Some k \<Rightarrow> sign (net i) k tx0
                    | None \<Rightarrow> Inr tx0) of
                Inl e \<Rightarrow> Failed e
              | Inr tx1 \<Rightarrow>
                  (case execute (net i) tx1 of
                     Inl e \<Rightarrow> Failed e
                   | Inr response \<Rightarrow>
                       (case getReceipt (net i) response of
                          Inl e \<Rightarrow> Failed e
                        | Inr r \<Rightarrow> Receipted r)))))"
proof (intro conjI impI)
  assume "5 \<le> length (queued p) + 1"
  then show "queued (publish net e p) = []"
    and "in_flight (publish net e p) = in_flight p @ [start_flush net (queued p @ [e])]"
    using publish_full [of p net e] by simp_all
next
  assume "length (queued p) + 1 < 5"
  then show "queued (publish net e p) = queued p @ [e]" and "in_flight (publish net e p) = in_flight p"
    using publish_all_short [of p "[e]" net] by simp_all
next
  have new: "queued new_MessagePublisher = []" "in_flight new_MessagePublisher = []"
    by (simp_all add: queued_def new_MessagePublisher_def)
  {
    assume "length es = 4"
    then show "queued (publish_all net es new_MessagePublisher) = es"
      and "in_flight (publish_all net es new_MessagePublisher) = []"
      using publish_all_short [of new_MessagePublisher es net] new by simp_all
  next
    assume five: "length es = 5"
    then obtain xs x where es: "es = xs @ [x]" and xs: "length xs = 4"
      by (cases es rule: rev_cases) simp_all
    let ?p4 = "publish_all net xs new_MessagePublisher"
    have q4: "queued ?p4 = xs" "in_flight ?p4 = []"
      using publish_all_short [of new_MessagePublisher xs net] new xs by simp_all
    have "publish_all net es new_MessagePublisher = publish net x ?p4"
      unfolding es by (simp add: publish_all_append)
    then show "queued (publish_all net es new_MessagePublisher) = []"
      and "in_flight (publish_all net es new_MessagePublisher) = [start_flush net es]"
      using publish_full [of ?p4 net x] q4 xs es by simp_all
  }
next
  assume "length (queued p) = 4"
  then show "queued (flushMessages net p) = []"
    and "in_flight (flushMessages net p) = in_flight p @ [start_flush net (queued p)]"
    and "entries (start_flush net (queued p)) = queued p"
    and "length (stages (start_flush net (queued p))) = 4"
    using flushMessages_result [of net p] start_flush_frame [of net "queued p"] by simp_all
next
  assume a: "length (queued p) = 4 \<and> (\<forall>i<4. 3 \<le> count_list sched i)"
  let ?f = "start_flush net (queued p)"
  have len: "length (stages (run_flush sched ?f)) = 4"
    using run_flush_frame [of sched ?f] start_flush_frame [of net "queued p"] a by simp
  then show "length (stages (run_flush sched ?f)) = 4" .
  have "settled (stages (run_flush sched ?f) ! i)" if "i < 4" for i
  proof -
    have "stages (run_flush sched ?f) ! i =
        (next_stage (flush_net ?f i) (entries ?f ! i) ^^ count_list sched i) (stages ?f ! i)"
      using that run_flush_stage [of i ?f sched] start_flush_frame [of net "queued p"] a by simp
    then show ?thesis using settled_after [of "count_list sched i"] that a by simp
  qed
  then show "list_all settled (stages (run_flush sched ?f))"
    using len by (simp add: list_all_length)
next
  assume a: "length (queued p) = 4 \<and> i < 4"
  then show "stages (start_flush net (queued p)) ! i =
        (case freezeWith (net i) (new_transaction
                (TopicMessageSubmitTransaction (message_topicId (queued p ! i))
                   (message (queued p ! i)))) of
           Inl e \<Rightarrow> Failed e
         | Inr tx0 \<Rightarrow>
             (case submitKey (queued p ! i) of
                Some k \<Rightarrow> AwaitingSign tx0
              | None \<Rightarrow> AwaitingExecute tx0))"
    using start_flush_stage [of i "queued p" net] by (simp add: start_task_def)
next
  assume a: "length (queued p) = 4 \<and> i < 4 \<and> 3 \<le> count_list sched i"
  let ?f = "start_flush net (queued p)"
  have "stages (run_flush sched ?f) ! i =
      (next_stage (net i) (queued p ! i) ^^ count_list sched i) (start_task (net i) (queued p ! i))"
    using a run_flush_stage [of i ?f sched] start_flush_frame [of net "queued p"]
      start_flush_stage [of i "queued p" net] by simp
  then show "stages (run_flush sched ?f) ! i =
        (case freezeWith (net i) (new_transaction
                (TopicMessageSubmitTransaction (message_topicId (queued p ! i))
                   (message (queued p ! i)))) of
           Inl e \<Rightarrow> Failed e
         | Inr tx0 \<Rightarrow>
             (case (case submitKey (queued p ! i) of
                      Some k \<Rightarrow> sign (net i) k tx0
                    | None \<Rightarrow> Inr tx0) of
                Inl e \<Rightarrow> Failed e
              | Inr tx1 \<Rightarrow>
                  (case execute (net i) tx1 of
                     Inl e \<Rightarrow> Failed e
                   | Inr response \<Rightarrow>
                       (case getReceipt (net i) response of
                          Inl e \<Rightarrow> Failed e
                        | Inr r \<Rightarrow> Receipted r))))"
    using a entry_outcome [of "count_list sched i" "net i" "queued p ! i"] by simp
qed

text \<open>Witness of C5 on a new publisher: four messages stay queued; the fifth flushes all
  five; a flush of four queued messages, each entry completing three times, leaves
  none queued and all four settled: the first, whose submission the network refuses,
  with that error, and the second with its receipt.\<close>

theorem publish_batches_of_five_witness:
  "queued (publish_all first_fails [hello, world_msg, hello, world_msg] new_MessagePublisher) =
     [hello, world_msg, hello, world_msg]
   \<and> in_flight (publish_all first_fails [hello, world_msg, hello, world_msg] new_MessagePublisher) = []
   \<and> queued (publish_all first_fails [hello, world_msg, hello, world_msg, hello] new_MessagePublisher) = []
   \<and> map entries (in_flight
        (publish_all first_fails [hello, world_msg, hello, world_msg, hello] new_MessagePublisher)) =
     [[hello, world_msg, hello, world_msg, hello]]
   \<and> queued (flushMessages first_fails
        (publish_all first_fails [hello, world_msg, hello, world_msg] new_MessagePublisher)) = []
   \<and> list_all settled (stages (run_flush [0, 1, 2, 3, 0, 1, 2, 3, 0, 1, 2, 3]
        (start_flush first_fails [hello, world_msg, hello, world_msg])))
   \<and> stages (run_flush [0, 1, 2, 3, 0, 1, 2, 3, 0, 1, 2, 3]
        (start_flush first_fails [hello, world_msg, hello, world_msg])) ! 0 =
     Failed (Error ''UNAVAILABLE'')
   \<and> stages (run_flush [0, 1, 2, 3, 0, 1, 2, 3, 0, 1, 2, 3]
        (start_flush first_fails [hello, world_msg, hello, world_msg])) ! 1 =
     Receipted \<lparr>status = ''SUCCESS'', accountId = Some ''0.0.5005'', topicId = Some ''0.0.6006''\<rparr>"
proof -
  let ?four = "[hello, world_msg, hello, world_msg]"
  let ?five = "[hello, world_msg, hello, world_msg, hello]"
  let ?p4 = "publish_all first_fails ?four new_MessagePublisher"
  let ?sched = "[0, 1, 2, 3, 0, 1, 2, 3, 0, 1, 2, 3] :: nat list"
  have four: "queued ?p4 = ?four \<and> in_flight ?p4 = []"
    using publish_batches_of_five [where es = ?four and net = first_fails,
        THEN conjunct2, THEN conjunct2, THEN conjunct1]
    by (simp del: publish_all.simps)
  have five: "queued (publish_all first_fails ?five new_MessagePublisher) = []
      \<and> in_flight (publish_all first_fails ?five new_MessagePublisher) = [start_flush first_fails ?five]"
    using publish_batches_of_five [where es = ?five and net = first_fails,
        THEN conjunct2, THEN conjunct2, THEN conjunct2, THEN conjunct1]
    by (simp del: publish_all.simps)
  have c: "\<forall>i<4. 3 \<le> count_list ?sched i"
  proof (intro allI impI)
    fix i :: nat assume "i < 4"
    then have "i = 0 \<or> i = 1 \<or> i = 2 \<or> i = 3" by arith
    then show "3 \<le> count_list ?sched i" by auto
  qed
  have fl: "queued (flushMessages first_fails ?p4) = []
      \<and> list_all settled (stages (run_flush ?sched (start_flush first_fails ?four)))"
    using publish_batches_of_five [where p = ?p4 and net = first_fails and sched = ?sched] four c
    by (simp del: publish_all.simps run_flush.simps count_list.simps)
  have o0: "(case freezeWith (first_fails 0) (new_transaction
                (TopicMessageSubmitTransaction (message_topicId hello) (message hello))) of
           Inl e \<Rightarrow> Failed e
         | Inr tx0 \<Rightarrow>
             (case (case submitKey hello of
                      Some k \<Rightarrow> sign (first_fails 0) k tx0
                    | None \<Rightarrow> Inr tx0) of
                Inl e \<Rightarrow> Failed e
              | Inr tx1 \<Rightarrow>
                  (case execute (first_fails 0) tx1 of
                     Inl e \<Rightarrow> Failed e
                   | Inr response \<Rightarrow>
                       (case getReceipt (first_fails 0) response of
                          Inl e \<Rightarrow> Failed e
                        | Inr r \<Rightarrow> Receipted r)))) = Failed (Error ''UNAVAILABLE'')"
    by (simp add: first_fails_def failing_sdk_def example_sdk_def hello_def new_transaction_def)
  have o1: "(case freezeWith (first_fails 1) (new_transaction
                (TopicMessageSubmitTransaction (message_topicId world_msg) (message world_msg))) of
           Inl e \<Rightarrow> Failed e
         | Inr tx0 \<Rightarrow>
             (case (case submitKey world_msg of
                      Some k \<Rightarrow> sign (first_fails 1) k tx0
                    | None \<Rightarrow> Inr tx0) of
                Inl e \<Rightarrow> Failed e
              | Inr tx1 \<Rightarrow>
                  (case execute (first_fails 1) tx1 of
                     Inl e \<Rightarrow> Failed e
                   | Inr response \<Rightarrow>
                       (case getReceipt (first_fails 1) response of
                          Inl e \<Rightarrow> Failed e
                        | Inr r \<Rightarrow> Receipted r)))) =
        Receipted \<lparr>status = ''SUCCESS'', accountId = Some ''0.0.5005'', topicId = Some ''0.0.6006''\<rparr>"
    by (simp add: first_fails_def example_sdk_def world_msg_def new_transaction_def)
  have c0: "3 \<le> count_list ?sched 0" and c1: "3 \<le> count_list ?sched 1" by simp_all
  have q0: "queued ?p4 ! 0 = hello" and q1: "queued ?p4 ! 1 = world_msg" and q4: "length (queued ?p4) = 4"
    using four by simp_all
  have s0: "stages (run_flush ?sched (start_flush first_fails ?four)) ! 0 = Failed (Error ''UNAVAILABLE'')"
    using publish_batches_of_five [where p = ?p4 and net = first_fails and sched = ?sched and i = 0,
        THEN conjunct2, THEN conjunct2, THEN conjunct2, THEN conjunct2, THEN conjunct2,
        THEN conjunct2, THEN conjunct2] q4 c0
    unfolding q0 o0 using four by (simp del: publish_all.simps run_flush.simps count_list.simps)
  have s1: "stages (run_flush ?sched (start_flush first_fails ?four)) ! 1 =
      Receipted \<lparr>status = ''SUCCESS'', accountId = Some ''0.0.5005'', topicId = Some ''0.0.6006''\<rparr>"
    using publish_batches_of_five [where p = ?p4 and net = first_fails and sched = ?sched and i = 1,
        THEN conjunct2, THEN conjunct2, THEN conjunct2, THEN conjunct2, THEN conjunct2,
        THEN conjunct2, THEN conjunct2] q4 c1
    unfolding q1 o1 using four by (simp del: publish_all.simps run_flush.simps count_list.simps)
  show ?thesis
    using four five fl s0 s1 start_flush_frame [of first_fails ?five]
    by (simp del: publish_all.simps run_flush.simps)
qed

end
